theory Spec2Isabelle
  imports Complex_Main
begin

section \<open>Order scheduling and execution engine of the Solana trading bot\<close>

text \<open>
  A shallow embedding of \<^verbatim>\<open>src/services/trading_engine.py\<close> and of the queries of
  \<^verbatim>\<open>src/services/database.py\<close> it relies on.

  Conventions of the embedding.
  \<^item> A Python \<^verbatim>\<open>float\<close> is an exact \<^typ>\<open>real\<close>: rounding is not modelled.
  \<^item> A dictionary read with \<^verbatim>\<open>d.get(k, default)\<close> is a record whose field \<open>k\<close> is an
    \<^typ>\<open>'a option\<close>; \<open>None\<close> is the absent key and the default is written out at the read.
  \<^item> The external collaborators (price oracle, swap venue, address validation, user
    store) are inputs of the functions: what they answer is a parameter.
  \<^item> A method whose Python name starts with an underscore keeps its name without it.
  \<^item> A coroutine that is awaited to completion is a function; where a claim depends on
    the interleaving of two coroutines, the coroutine is cut at its \<^verbatim>\<open>await\<close> points
    into the actions of a scheduler.
  \<^item> The store is the collections the engine reads and writes, each a list of
    documents; a filter on \<^verbatim>\<open>_id\<close> compares the value and its type, as the store does.
\<close>

subsection \<open>Configuration (\<^verbatim>\<open>config/settings.py\<close>)\<close>

text \<open>
  The three trading constants are read from the environment, with defaults; the engine
  is modelled for any value of them.
\<close>

record settings =
  MIN_TRADE_AMOUNT :: real
  MAX_TRADE_AMOUNT :: real
  DEFAULT_SLIPPAGE :: real

definition default_settings :: settings where
  "default_settings = \<lparr>MIN_TRADE_AMOUNT = 0.01, MAX_TRADE_AMOUNT = 10, DEFAULT_SLIPPAGE = 0.5\<rparr>"

subsection \<open>Trade orders and their validation\<close>

datatype TradeType = BUY | SELL | LIMIT_BUY | LIMIT_SELL | COPY_TRADE | SNIPE

datatype TradeStatus = PENDING | EXECUTING | COMPLETED | FAILED | CANCELLED

record TradeOrder =
  user_id :: int
  trade_type :: TradeType
  input_token :: string
  output_token :: string
  amount :: real
  price :: "real option"
  slippage :: real
  stop_loss :: "real option"
  take_profit :: "real option"
  expires_at :: "real option"
  copy_wallet :: "string option"

text \<open>
  The user document, as far as \<^verbatim>\<open>_validate_order\<close> reads it:
  \<^verbatim>\<open>user.get('subscription_tier', 'free')\<close> and
  \<^verbatim>\<open>user.get('settings', {}).get('max_trade_amount', MAX_TRADE_AMOUNT)\<close>.
\<close>

record user_doc =
  subscription_tier :: "string option"
  max_trade_amount :: "real option"

text \<open>
  The second component of the pair \<^verbatim>\<open>_validate_order\<close> returns. The three messages built
  with an f-string carry the number they print.
\<close>

datatype reason =
    User_not_found
  | Copy_trading_requires_premium
  | Minimum_trade_amount real
  | Maximum_trade_amount real
  | Exceeds_your_maximum real
  | Invalid_input_token
  | Invalid_output_token
  | Slippage_out_of_range
  | Order_validated

definition validate_order ::
  "settings \<Rightarrow> (int \<Rightarrow> user_doc option) \<Rightarrow> (string \<Rightarrow> bool) \<Rightarrow> TradeOrder \<Rightarrow> bool \<times> reason"
where
  "validate_order cfg get_user validate_address order =
     (case get_user (user_id order) of
        None \<Rightarrow> (False, User_not_found)
      | Some user \<Rightarrow>
          (let user_tier = (case subscription_tier user of None \<Rightarrow> ''free'' | Some t \<Rightarrow> t);
               user_max = (case max_trade_amount user of
                             None \<Rightarrow> MAX_TRADE_AMOUNT cfg | Some m \<Rightarrow> m)
           in if user_tier = ''free'' \<and> trade_type order = COPY_TRADE
                then (False, Copy_trading_requires_premium)
              else if amount order < MIN_TRADE_AMOUNT cfg
                then (False, Minimum_trade_amount (MIN_TRADE_AMOUNT cfg))
              else if amount order > MAX_TRADE_AMOUNT cfg
                then (False, Maximum_trade_amount (MAX_TRADE_AMOUNT cfg))
              else if amount order > user_max
                then (False, Exceeds_your_maximum user_max)
              else if \<not> validate_address (input_token order)
                then (False, Invalid_input_token)
              else if \<not> validate_address (output_token order)
                then (False, Invalid_output_token)
              else if slippage order < 0.1 \<or> slippage order > 50
                then (False, Slippage_out_of_range)
              else (True, Order_validated)))"

text \<open>
  The checks in the order the code performs them, as a list of pairs (the check fails,
  its reason), and the first failing one.
\<close>

fun first_failing :: "(bool \<times> reason) list \<Rightarrow> bool \<times> reason" where
  "first_failing [] = (True, Order_validated)"
| "first_failing ((failed, r) # cs) = (if failed then (False, r) else first_failing cs)"

definition checks_in_code_order ::
  "settings \<Rightarrow> (string \<Rightarrow> bool) \<Rightarrow> user_doc \<Rightarrow> TradeOrder \<Rightarrow> (bool \<times> reason) list"
where
  "checks_in_code_order cfg validate_address user order =
     [ ((subscription_tier user = None \<or> subscription_tier user = Some ''free'')
          \<and> trade_type order = COPY_TRADE,
        Copy_trading_requires_premium),
       (amount order < MIN_TRADE_AMOUNT cfg, Minimum_trade_amount (MIN_TRADE_AMOUNT cfg)),
       (amount order > MAX_TRADE_AMOUNT cfg, Maximum_trade_amount (MAX_TRADE_AMOUNT cfg)),
       (amount order > (case max_trade_amount user of
                          None \<Rightarrow> MAX_TRADE_AMOUNT cfg | Some m \<Rightarrow> m),
        Exceeds_your_maximum (case max_trade_amount user of
                                None \<Rightarrow> MAX_TRADE_AMOUNT cfg | Some m \<Rightarrow> m)),
       (\<not> validate_address (input_token order), Invalid_input_token),
       (\<not> validate_address (output_token order), Invalid_output_token),
       (slippage order < 0.1 \<or> slippage order > 50, Slippage_out_of_range) ]"

text \<open>Concrete inputs used below.\<close>

definition free_user :: user_doc where
  "free_user = \<lparr>subscription_tier = Some ''free'', max_trade_amount = None\<rparr>"

definition tiny_copy_order :: TradeOrder where
  "tiny_copy_order =
     \<lparr>user_id = 1, trade_type = COPY_TRADE, input_token = ''SOL'', output_token = ''TOK'',
      amount = 0.001, price = None, slippage = 0.5, stop_loss = None, take_profit = None,
      expires_at = None, copy_wallet = None\<rparr>"

definition snipe_order_free :: TradeOrder where
  "snipe_order_free =
     \<lparr>user_id = 1, trade_type = SNIPE, input_token = ''SOL'', output_token = ''TOK'',
      amount = 1, price = None, slippage = 0.5, stop_loss = None, take_profit = None,
      expires_at = None, copy_wallet = None\<rparr>"

subsection \<open>Market orders placed by the monitors\<close>

text \<open>
  A call of \<^verbatim>\<open>execute_market_buy(user_id, token_address, amount_sol)\<close> or of
  \<^verbatim>\<open>execute_market_sell(user_id, token_address, amount_tokens)\<close>.
\<close>

datatype market_call = Market_buy int string real | Market_sell int string real

fun call_user :: "market_call \<Rightarrow> int" where
  "call_user (Market_buy u t a) = u"
| "call_user (Market_sell u t a) = u"

fun call_amount :: "market_call \<Rightarrow> real" where
  "call_amount (Market_buy u t a) = a"
| "call_amount (Market_sell u t a) = a"

text \<open>
  The engine object, as far as the market calls depend on it: the trading constants it
  imports, and whether its payment collaborator \<^verbatim>\<open>self.payment\<close> is present.
  \<^verbatim>\<open>src/main.py\<close> constructs the engine before it creates the payment service, so the
  engine it builds holds \<^verbatim>\<open>None\<close> there.
\<close>

record engine = settings +
  payment_present :: bool

definition engine_with_payment :: engine where
  "engine_with_payment = \<lparr>MIN_TRADE_AMOUNT = 0.01, MAX_TRADE_AMOUNT = 10, DEFAULT_SLIPPAGE = 0.5,
                           payment_present = True\<rparr>"

definition engine_of_main :: engine where
  "engine_of_main = \<lparr>MIN_TRADE_AMOUNT = 0.01, MAX_TRADE_AMOUNT = 10, DEFAULT_SLIPPAGE = 0.5,
                      payment_present = False\<rparr>"

text \<open>
  \<^verbatim>\<open>execute_market_buy\<close>: the amount is checked against the global bounds and the
  user's own maximum (\<^verbatim>\<open>user_settings.get('trading', {}).get('max_amount', MAX_TRADE_AMOUNT)\<close>)
  before the venue is called. The result is the pair (the \<^verbatim>\<open>success\<close> field, the
  venue's swap was invoked). After a swap the venue reports as successful, the trade is
  stored and \<^verbatim>\<open>self.payment.process_automatic_fee_deduction\<close> is called: with the payment
  collaborator absent this raises, and the handler of the function returns
  \<^verbatim>\<open>success\<close> false although the swap was executed. The collaborators themselves catch
  their own exceptions.
\<close>

definition execute_market_buy :: "engine \<Rightarrow> real option \<Rightarrow> real \<Rightarrow> bool \<Rightarrow> bool \<times> bool" where
  "execute_market_buy eng user_max_amount amount_sol swap_ok =
     (if amount_sol < MIN_TRADE_AMOUNT eng \<or> amount_sol > MAX_TRADE_AMOUNT eng
        then (False, False)
      else
        (let max_amount = (case user_max_amount of
                             None \<Rightarrow> MAX_TRADE_AMOUNT eng | Some m \<Rightarrow> m)
         in if amount_sol > max_amount then (False, False)
            else if swap_ok then (payment_present eng, True)
            else (False, True)))"

text \<open>
  \<^verbatim>\<open>execute_market_sell\<close> checks nothing before the swap; after it, the same steps
  follow as in the buy.
\<close>

definition execute_market_sell :: "engine \<Rightarrow> real \<Rightarrow> bool \<Rightarrow> bool \<times> bool" where
  "execute_market_sell eng amount_tokens swap_ok =
     (if swap_ok then (payment_present eng, True) else (False, True))"

subsection \<open>Copy trading\<close>

text \<open>
  The \<^verbatim>\<open>copy_settings\<close> dictionary of a subscription; every key may be absent.
\<close>

record copy_settings =
  cs_enabled :: "bool option"
  cs_copy_percentage :: "real option"
  cs_max_copy_amount :: "real option"
  cs_min_trade_amount :: "real option"
  cs_copy_delay :: "real option"
  cs_risk_level :: "string option"

definition no_settings :: copy_settings where
  "no_settings = \<lparr>cs_enabled = None, cs_copy_percentage = None, cs_max_copy_amount = None,
                   cs_min_trade_amount = None, cs_copy_delay = None, cs_risk_level = None\<rparr>"

text \<open>A document of the collection \<^verbatim>\<open>copy_trading_subscriptions\<close>.\<close>

record copy_subscription =
  sub_user_id :: int
  sub_wallet_address :: string
  sub_copy_settings :: "copy_settings option"
  sub_is_active :: bool

text \<open>An observed transaction of a source wallet; every key but the signature may be absent.\<close>

record transaction =
  tx_signature :: string
  tx_block_time :: "real option"
  tx_type :: "string option"
  tx_amount :: "real option"
  tx_amount_usd :: "real option"
  tx_input_token :: "string option"
  tx_output_token :: "string option"
  tx_detected_trade_type :: "string option"

definition SOL_MINT :: string where
  "SOL_MINT = ''So11111111111111111111111111111111111111112''"

text \<open>
  Lines 561 to 569 of \<^verbatim>\<open>_execute_copy_trades\<close>: the amount of the mirrored trade.
\<close>

definition copy_amount :: "copy_settings \<Rightarrow> real \<Rightarrow> real \<Rightarrow> real" where
  "copy_amount cs amt amt_usd =
     (let copy_percentage = (case cs_copy_percentage cs of None \<Rightarrow> 100 | Some p \<Rightarrow> p) / 100;
          max_copy_amount = (case cs_max_copy_amount cs of None \<Rightarrow> 1 | Some m \<Rightarrow> m)
      in if amt_usd > 0
           then min (amt_usd * copy_percentage) (max_copy_amount * 100) / 100
         else min (amt * copy_percentage) max_copy_amount)"

text \<open>
  The body of the loop over the subscribers: the market call made for one subscriber, or
  \<open>None\<close> when the subscriber is skipped.
\<close>

definition copy_trade_for_user ::
  "string \<Rightarrow> string \<Rightarrow> string \<Rightarrow> real \<Rightarrow> real \<Rightarrow> copy_subscription \<Rightarrow> market_call option"
where
  "copy_trade_for_user type input_tok output_tok amt amt_usd user_data =
     (let uid = sub_user_id user_data;
          cs = (case sub_copy_settings user_data of None \<Rightarrow> no_settings | Some c \<Rightarrow> c)
      in if cs_enabled cs \<noteq> Some True then None
         else
           (let ca = copy_amount cs amt amt_usd
            in if ca < 0.01 then None
               else if type = ''buy'' then Some (Market_buy uid output_tok ca)
               else if type = ''sell'' then Some (Market_sell uid input_tok ca)
               else if type = ''swap'' then
                 (if input_tok = SOL_MINT then Some (Market_buy uid output_tok ca)
                  else Some (Market_sell uid input_tok ca))
               else None))"

text \<open>
  \<^verbatim>\<open>_execute_copy_trades(wallet_address, transaction)\<close>, with the answer of
  \<^verbatim>\<open>db.get_copy_trading_users(wallet_address)\<close> as the argument \<open>copy_users\<close>. The value
  is the list of market calls made, in order. What a call answers only decides whether
  an alert and a statistics update follow; it does not change the later calls.
\<close>

definition execute_copy_trades ::
  "string \<Rightarrow> transaction \<Rightarrow> copy_subscription list \<Rightarrow> market_call list"
where
  "execute_copy_trades wallet_address tx copy_users =
     (if copy_users = [] then []
      else
        (let type = (case tx_detected_trade_type tx of
                       Some d \<Rightarrow> d
                     | None \<Rightarrow> (case tx_type tx of None \<Rightarrow> ''unknown'' | Some t \<Rightarrow> t));
             amt = (case tx_amount tx of None \<Rightarrow> 0 | Some a \<Rightarrow> a);
             amt_usd = (case tx_amount_usd tx of None \<Rightarrow> 0 | Some a \<Rightarrow> a)
         in if amt < 0.1 \<and> amt_usd < 100 then []
            else
              (case (tx_input_token tx, tx_output_token tx) of
                 (Some input_tok, Some output_tok) \<Rightarrow>
                   (if input_tok = [] \<or> output_tok = [] then []
                    else List.map_filter
                           (copy_trade_for_user type input_tok output_tok amt amt_usd)
                           copy_users)
               | _ \<Rightarrow> [])))"

text \<open>
  One pass of the loop of \<^verbatim>\<open>_monitor_copy_trading\<close>. What the pass observes: the clock,
  the recent transactions of each wallet and the active subscriptions of each wallet.
\<close>

record copy_observation =
  ob_now :: real
  ob_wallet_transactions :: "string \<Rightarrow> transaction list"
  ob_copy_trading_users :: "string \<Rightarrow> copy_subscription list"

definition is_recent :: "real \<Rightarrow> transaction \<Rightarrow> bool" where
  "is_recent now tx =
     (case tx_block_time tx of
        None \<Rightarrow> True
      | Some t \<Rightarrow> if t = 0 then True else \<not> (now - t > 300))"

definition detect_trade_type :: "transaction \<Rightarrow> string option" where
  "detect_trade_type tx =
     (let type = (case tx_type tx of None \<Rightarrow> ''unknown'' | Some t \<Rightarrow> t);
          amt = (case tx_amount tx of None \<Rightarrow> 0 | Some a \<Rightarrow> a);
          amt_usd = (case tx_amount_usd tx of None \<Rightarrow> 0 | Some a \<Rightarrow> a)
      in if type = ''receive'' \<and> amt > 0.1 then Some ''buy''
         else if type = ''send'' \<and> amt > 0.1 then Some ''sell''
         else if amt_usd > 100 then Some ''swap''
         else None)"

text \<open>
  A relayed child order: the signature of the source transaction and the market call.
\<close>

type_synonym relay = "string \<times> market_call"

definition relay_transaction :: "copy_observation \<Rightarrow> string \<Rightarrow> transaction \<Rightarrow> relay list" where
  "relay_transaction ob wallet_address tx =
     (if \<not> is_recent (ob_now ob) tx then []
      else
        (case detect_trade_type tx of
           None \<Rightarrow> []
         | Some d \<Rightarrow>
             map (Pair (tx_signature tx))
               (execute_copy_trades wallet_address (tx\<lparr>tx_detected_trade_type := Some d\<rparr>)
                  (ob_copy_trading_users ob wallet_address))))"

text \<open>
  The engine field \<^verbatim>\<open>copy_trading_subscriptions\<close> (user id to wallet addresses) is an
  association list; the set of monitored wallets is its values without duplicates.
\<close>

definition monitor_copy_trading_tick :: "(int \<times> string list) list \<Rightarrow> copy_observation \<Rightarrow> relay list" where
  "monitor_copy_trading_tick copy_trading_subscriptions ob =
     (if copy_trading_subscriptions = [] then []
      else
        (let monitored_wallets = remdups (concat (map snd copy_trading_subscriptions))
         in concat (map (\<lambda>wallet_address.
                      concat (map (relay_transaction ob wallet_address)
                                (ob_wallet_transactions ob wallet_address)))
                    monitored_wallets)))"

text \<open>
  The loop runs one pass after the other; the engine keeps nothing from a pass, so the
  child orders of a run are those of its passes, in order.
\<close>

fun monitor_copy_trading :: "(int \<times> string list) list \<Rightarrow> copy_observation list \<Rightarrow> relay list" where
  "monitor_copy_trading subs [] = []"
| "monitor_copy_trading subs (ob # obs) =
     monitor_copy_trading_tick subs ob @ monitor_copy_trading subs obs"

definition relays_of :: "string \<Rightarrow> int \<Rightarrow> relay list \<Rightarrow> nat" where
  "relays_of signature uid rs =
     length (filter (\<lambda>r. fst r = signature \<and> call_user (snd r) = uid) rs)"

text \<open>
  The spec's words for the amount of a child order: the observed amount scaled by the
  copy percentage and capped at the maximum copy amount.
\<close>

definition scaled_and_capped :: "real \<Rightarrow> real \<Rightarrow> real \<Rightarrow> real" where
  "scaled_and_capped copy_percentage max_copy_amount observed =
     min (observed * (copy_percentage / 100)) max_copy_amount"

text \<open>Concrete inputs used below.\<close>

definition half_capped :: copy_settings where
  "half_capped = \<lparr>cs_enabled = Some True, cs_copy_percentage = Some 50,
                   cs_max_copy_amount = Some 0.3, cs_min_trade_amount = Some 0.1,
                   cs_copy_delay = None, cs_risk_level = None\<rparr>"

definition follower :: copy_subscription where
  "follower = \<lparr>sub_user_id = 7, sub_wallet_address = ''W'',
                sub_copy_settings = Some half_capped, sub_is_active = True\<rparr>"

definition source_buy :: transaction where
  "source_buy = \<lparr>tx_signature = ''S1'', tx_block_time = Some 1000, tx_type = Some ''receive'',
                  tx_amount = Some 1, tx_amount_usd = None, tx_input_token = Some SOL_MINT,
                  tx_output_token = Some ''TOK'', tx_detected_trade_type = None\<rparr>"

definition seen_source_buy :: copy_observation where
  "seen_source_buy = \<lparr>ob_now = 1010, ob_wallet_transactions = (\<lambda>w. if w = ''W'' then [source_buy] else []),
                       ob_copy_trading_users = (\<lambda>w. if w = ''W'' then [follower] else [])\<rparr>"

subsection \<open>The store's documents and its single-document operations\<close>

text \<open>
  The \<^verbatim>\<open>_id\<close> of a document is an object id (what the store assigns to a document
  inserted without one, written here with its hexadecimal form) or a string. The two
  never compare equal. Python's \<^verbatim>\<open>str(doc['_id'])\<close> is \<open>str_id\<close>, and \<^verbatim>\<open>ObjectId(s)\<close> is the
  constructor.
\<close>

datatype bson_id = is_ObjectId: ObjectId string | Str_id string

fun str_id :: "bson_id \<Rightarrow> string" where
  "str_id (ObjectId h) = h"
| "str_id (Str_id s) = s"

text \<open>
  A document of the collection \<^verbatim>\<open>trades\<close>, with the fields the engine reads. The flag
  \<open>tr_stop_loss_triggered\<close> is false when the key is absent.
\<close>

record trade_doc =
  trade_id :: bson_id
  tr_user_id :: int
  tr_status :: TradeStatus
  tr_output_token :: "string option"
  tr_entry_price :: "real option"
  tr_stop_loss :: "real option"
  tr_output_amount :: "real option"
  tr_stop_loss_triggered :: bool

text \<open>
  \<^verbatim>\<open>update_one(filter, {'$set': ...})\<close> changes the first document that matches the filter,
  \<^verbatim>\<open>find_one(filter)\<close> returns it.
\<close>

fun update_one :: "('a \<Rightarrow> bool) \<Rightarrow> ('a \<Rightarrow> 'a) \<Rightarrow> 'a list \<Rightarrow> 'a list" where
  "update_one P f [] = []"
| "update_one P f (d # ds) = (if P d then f d # ds else d # update_one P f ds)"

fun find_one :: "('a \<Rightarrow> bool) \<Rightarrow> 'a list \<Rightarrow> 'a option" where
  "find_one P [] = None"
| "find_one P (d # ds) = (if P d then Some d else find_one P ds)"

text \<open>
  \<^verbatim>\<open>DatabaseManager.update_trade_status\<close> and \<^verbatim>\<open>update_trade_stop_loss_triggered\<close> filter on
  \<^verbatim>\<open>{'_id': ObjectId(trade_id)}\<close>. Their boolean result is not used by any caller
  modelled here.
\<close>

definition update_trade_status :: "string \<Rightarrow> TradeStatus \<Rightarrow> trade_doc list \<Rightarrow> trade_doc list" where
  "update_trade_status tid status trades =
     update_one (\<lambda>t. trade_id t = ObjectId tid) (\<lambda>t. t\<lparr>tr_status := status\<rparr>) trades"

definition update_trade_stop_loss_triggered :: "string \<Rightarrow> trade_doc list \<Rightarrow> trade_doc list" where
  "update_trade_stop_loss_triggered tid trades =
     update_one (\<lambda>t. trade_id t = ObjectId tid) (\<lambda>t. t\<lparr>tr_stop_loss_triggered := True\<rparr>) trades"

subsection \<open>Stop-loss monitoring\<close>

definition get_completed_trades_with_stop_loss :: "trade_doc list \<Rightarrow> trade_doc list" where
  "get_completed_trades_with_stop_loss trades =
     filter (\<lambda>t. tr_status t = COMPLETED
                \<and> (case tr_stop_loss t of None \<Rightarrow> False | Some s \<Rightarrow> s > 0)
                \<and> tr_stop_loss_triggered t \<noteq> True) trades"

text \<open>
  The state the stop-loss monitor works on: the collection \<^verbatim>\<open>trades\<close>, and the forced
  sells submitted so far, each with the id of the originating trade and with the
  \<^verbatim>\<open>success\<close> field of its result. (A successful sell also inserts a record of itself
  into \<^verbatim>\<open>trades\<close>; that record has no \<^verbatim>\<open>stop_loss\<close> key, the query never returns it, and
  it is left out.)
\<close>

record stop_loss_state =
  sl_trades :: "trade_doc list"
  sl_sells :: "(bson_id \<times> market_call \<times> bool) list"

text \<open>
  What one pass of the monitor observes: the \<^verbatim>\<open>price\<close> field the oracle answers for a
  token, and whether the venue reports the swap of the forced sell of a trade as
  successful.
\<close>

record stop_loss_observation =
  so_price :: "string \<Rightarrow> real option"
  so_swap_ok :: "bson_id \<Rightarrow> bool"

text \<open>
  \<^verbatim>\<open>_execute_stop_loss(trade, current_price)\<close>. It is reached from \<^verbatim>\<open>_check_stop_loss\<close>
  only, with the trade's output token present.
\<close>

definition execute_stop_loss ::
  "engine \<Rightarrow> stop_loss_observation \<Rightarrow> trade_doc \<Rightarrow> real \<Rightarrow> stop_loss_state \<Rightarrow> stop_loss_state"
where
  "execute_stop_loss eng ob trade current_price st =
     (let uid = tr_user_id trade;
          token_address = (case tr_output_token trade of None \<Rightarrow> [] | Some t \<Rightarrow> t);
          token_amount = (case tr_output_amount trade of None \<Rightarrow> 0 | Some a \<Rightarrow> a)
      in if token_amount \<le> 0 then st
         else
           (let result = execute_market_sell eng token_amount (so_swap_ok ob (trade_id trade));
                st1 = st\<lparr>sl_sells := sl_sells st
                          @ [(trade_id trade, Market_sell uid token_address token_amount, fst result)]\<rparr>
            in if fst result
                 then st1\<lparr>sl_trades := update_trade_stop_loss_triggered
                                           (str_id (trade_id trade)) (sl_trades st1)\<rparr>
               else st1))"

text \<open>
  \<^verbatim>\<open>_check_stop_loss(trade)\<close>. A field that is present but null makes the arithmetic raise
  a \<^verbatim>\<open>TypeError\<close>, which the function catches: like the absent field, it leads to no
  action.
\<close>

definition check_stop_loss ::
  "engine \<Rightarrow> stop_loss_observation \<Rightarrow> trade_doc \<Rightarrow> stop_loss_state \<Rightarrow> stop_loss_state"
where
  "check_stop_loss eng ob trade st =
     (case tr_output_token trade of
        None \<Rightarrow> st
      | Some token_address \<Rightarrow>
          if token_address = [] then st
          else
            (let current_price = (case so_price ob token_address of None \<Rightarrow> 0 | Some p \<Rightarrow> p)
             in if current_price = 0 then st
                else
                  (case tr_entry_price trade of
                     None \<Rightarrow> st
                   | Some entry_price \<Rightarrow>
                       if entry_price = 0 then st
                       else
                         (let price_change_pct = ((current_price - entry_price) / entry_price) * 100
                          in case tr_stop_loss trade of
                               None \<Rightarrow> st
                             | Some stop_loss_pct \<Rightarrow>
                                 if stop_loss_pct = 0 then st
                                 else if price_change_pct \<le> - stop_loss_pct
                                   then execute_stop_loss eng ob trade current_price st
                                 else st))))"

text \<open>
  One pass of \<^verbatim>\<open>_monitor_stop_losses\<close>: the query is answered once, then each trade of
  the answer is checked in turn.
\<close>

definition monitor_stop_losses_tick ::
  "engine \<Rightarrow> stop_loss_observation \<Rightarrow> stop_loss_state \<Rightarrow> stop_loss_state"
where
  "monitor_stop_losses_tick eng ob st =
     foldl (\<lambda>s trade. check_stop_loss eng ob trade s) st
       (get_completed_trades_with_stop_loss (sl_trades st))"

fun monitor_stop_losses ::
  "engine \<Rightarrow> stop_loss_observation list \<Rightarrow> stop_loss_state \<Rightarrow> stop_loss_state"
where
  "monitor_stop_losses eng [] st = st"
| "monitor_stop_losses eng (ob # obs) st =
     monitor_stop_losses eng obs (monitor_stop_losses_tick eng ob st)"

text \<open>
  Two or more tasks running the same monitor loop. The admin restart handler calls
  \<^verbatim>\<open>stop_monitoring\<close> and, two seconds later, \<^verbatim>\<open>start_monitoring\<close>, which creates new
  tasks while the old ones still sleep and then find \<^verbatim>\<open>is_running\<close> set again. A task
  gives up control at each \<^verbatim>\<open>await\<close>: after its query is answered, and between the
  documents of the answer. The scheduler picks which task moves: \<open>Query k\<close> lets task \<open>k\<close>
  take its answer, \<open>Check_next k\<close> lets it check the next document of its answer.
\<close>

datatype monitor_action = Query nat | Check_next nat

record stop_loss_tasks =
  st_engine :: stop_loss_state
  st_answer :: "nat \<Rightarrow> trade_doc list"

fun stop_loss_task_step ::
  "engine \<Rightarrow> stop_loss_observation \<Rightarrow> monitor_action \<Rightarrow> stop_loss_tasks \<Rightarrow> stop_loss_tasks"
where
  "stop_loss_task_step eng ob (Query k) ts =
     ts\<lparr>st_answer := (st_answer ts)
                         (k := get_completed_trades_with_stop_loss (sl_trades (st_engine ts)))\<rparr>"
| "stop_loss_task_step eng ob (Check_next k) ts =
     (case st_answer ts k of
        [] \<Rightarrow> ts
      | trade # rest \<Rightarrow>
          ts\<lparr>st_engine := check_stop_loss eng ob trade (st_engine ts),
             st_answer := (st_answer ts)(k := rest)\<rparr>)"

fun stop_loss_tasks_run ::
  "engine \<Rightarrow> stop_loss_observation \<Rightarrow> monitor_action list \<Rightarrow> stop_loss_tasks \<Rightarrow> stop_loss_tasks"
where
  "stop_loss_tasks_run eng ob [] ts = ts"
| "stop_loss_tasks_run eng ob (a # as) ts =
     stop_loss_tasks_run eng ob as (stop_loss_task_step eng ob a ts)"

text \<open>The forced sells submitted for a trade, and those of them that succeeded.\<close>

definition sells_submitted :: "bson_id \<Rightarrow> stop_loss_state \<Rightarrow> nat" where
  "sells_submitted tid st = length (filter (\<lambda>e. fst e = tid) (sl_sells st))"

definition sells_succeeded :: "bson_id \<Rightarrow> stop_loss_state \<Rightarrow> nat" where
  "sells_succeeded tid st = length (filter (\<lambda>e. fst e = tid \<and> snd (snd e)) (sl_sells st))"

text \<open>
  The invariant of the monitor: a trade with a successful forced sell carries the flag.
\<close>

definition flagged :: "bson_id \<Rightarrow> trade_doc list \<Rightarrow> bool" where
  "flagged tid trades = (\<forall>t\<in>set trades. trade_id t = tid \<longrightarrow> tr_stop_loss_triggered t)"

definition stop_loss_inv :: "stop_loss_state \<Rightarrow> bool" where
  "stop_loss_inv st =
     (distinct (map trade_id (sl_trades st))
      \<and> (\<forall>t\<in>set (sl_trades st). is_ObjectId (trade_id t))
      \<and> (\<forall>tid. sells_succeeded tid st \<le> 1
                \<and> (1 \<le> sells_succeeded tid st \<longrightarrow> flagged tid (sl_trades st))))"

text \<open>Concrete inputs used below.\<close>

definition held_position :: trade_doc where
  "held_position = \<lparr>trade_id = ObjectId ''65a1'', tr_user_id = 7, tr_status = COMPLETED,
                     tr_output_token = Some ''TOK'', tr_entry_price = Some 10,
                     tr_stop_loss = Some 20, tr_output_amount = Some 5,
                     tr_stop_loss_triggered = False\<rparr>"

definition price_at :: "real \<Rightarrow> bool \<Rightarrow> stop_loss_observation" where
  "price_at p ok = \<lparr>so_price = (\<lambda>t. Some p), so_swap_ok = (\<lambda>i. ok)\<rparr>"

definition one_position :: stop_loss_state where
  "one_position = \<lparr>sl_trades = [held_position], sl_sells = []\<rparr>"

subsection \<open>Snipe allocations\<close>

text \<open>
  The configuration \<^verbatim>\<open>create_snipe_order\<close> receives; it requires the four keys.
\<close>

record snipe_config =
  sc_max_amount :: "real option"
  sc_slippage :: "real option"
  sc_take_profit :: "real option"
  sc_stop_loss :: "real option"

text \<open>
  The snipe order dictionary. An executed child trade is kept with its token address and
  its amount.
\<close>

record snipe_order =
  sn_id :: string
  sn_user_id :: int
  sn_max_amount :: real
  sn_slippage :: real
  sn_take_profit :: real
  sn_stop_loss :: real
  sn_executed_trades :: "(string \<times> real) list"
  sn_total_spent :: real

datatype snipe_error = Missing_required_field string | Max_amount_out_of_range | Failed_to_create_snipe_order

text \<open>
  \<^verbatim>\<open>create_snipe_order\<close>; \<open>inserted_id\<close> is what \<^verbatim>\<open>db.store_snipe_order\<close> answers, \<open>None\<close>
  when the insert failed. The value is the stored order.
\<close>

definition create_snipe_order :: "int \<Rightarrow> snipe_config \<Rightarrow> string option \<Rightarrow> snipe_error + snipe_order" where
  "create_snipe_order uid config inserted_id =
     (case sc_max_amount config of
        None \<Rightarrow> Inl (Missing_required_field ''max_amount'')
      | Some max_amount \<Rightarrow>
     (case sc_slippage config of
        None \<Rightarrow> Inl (Missing_required_field ''slippage'')
      | Some slip \<Rightarrow>
     (case sc_take_profit config of
        None \<Rightarrow> Inl (Missing_required_field ''take_profit'')
      | Some tp \<Rightarrow>
     (case sc_stop_loss config of
        None \<Rightarrow> Inl (Missing_required_field ''stop_loss'')
      | Some sl \<Rightarrow>
          if max_amount < 0.01 \<or> max_amount > 10.0 then Inl Max_amount_out_of_range
          else
            (case inserted_id of
               None \<Rightarrow> Inl Failed_to_create_snipe_order
             | Some order_id \<Rightarrow>
                 Inr \<lparr>sn_id = order_id, sn_user_id = uid, sn_max_amount = max_amount,
                      sn_slippage = slip, sn_take_profit = tp, sn_stop_loss = sl,
                      sn_executed_trades = [], sn_total_spent = 0\<rparr>)))))"

datatype snipe_result =
    Max_amount_already_spent
  | Insufficient_remaining_amount
  | Market_buy_failed
  | Snipe_trade_executed real

text \<open>
  \<^verbatim>\<open>execute_snipe_trade(snipe_order, token_address, token_info)\<close>. The dictionary is changed
  in place: the value is the dictionary after the call, and the result. The user's own
  maximum and the venue's answer are what \<^verbatim>\<open>execute_market_buy\<close> meets at this call.
\<close>

definition execute_snipe_trade ::
  "engine \<Rightarrow> real option \<Rightarrow> bool \<Rightarrow> snipe_order \<Rightarrow> string \<Rightarrow> snipe_order \<times> snipe_result"
where
  "execute_snipe_trade cfg user_max_amount swap_ok snipe token_address =
     (let max_amount = sn_max_amount snipe
      in if sn_total_spent snipe \<ge> max_amount then (snipe, Max_amount_already_spent)
         else
           (let remaining_amount = max_amount - sn_total_spent snipe;
                trade_amount = min remaining_amount (max_amount * 0.2)
            in if trade_amount < 0.01 then (snipe, Insufficient_remaining_amount)
               else
                 (let result = execute_market_buy cfg user_max_amount trade_amount swap_ok
                  in if fst result
                       then (snipe\<lparr>sn_executed_trades :=
                                      sn_executed_trades snipe @ [(token_address, trade_amount)],
                                    sn_total_spent := sn_total_spent snipe + trade_amount\<rparr>,
                             Snipe_trade_executed trade_amount)
                     else (snipe, Market_buy_failed))))"

text \<open>
  A sequence of calls on the same dictionary; each call comes with its token address,
  the user's own maximum at that time and the venue's answer.
\<close>

fun execute_snipe_trades ::
  "engine \<Rightarrow> (string \<times> real option \<times> bool) list \<Rightarrow> snipe_order \<Rightarrow> snipe_order"
where
  "execute_snipe_trades cfg [] snipe = snipe"
| "execute_snipe_trades cfg ((token_address, user_max_amount, swap_ok) # calls) snipe =
     execute_snipe_trades cfg calls
       (fst (execute_snipe_trade cfg user_max_amount swap_ok snipe token_address))"

text \<open>Concrete inputs used below.\<close>

definition one_sol_config :: snipe_config where
  "one_sol_config = \<lparr>sc_max_amount = Some 1, sc_slippage = Some 1, sc_take_profit = Some 50,
                      sc_stop_loss = Some 20\<rparr>"

definition one_sol_snipe :: snipe_order where
  "one_sol_snipe = \<lparr>sn_id = ''65b2'', sn_user_id = 7, sn_max_amount = 1, sn_slippage = 1,
                     sn_take_profit = 50, sn_stop_loss = 20, sn_executed_trades = [],
                     sn_total_spent = 0\<rparr>"

subsection \<open>Subscribing to a wallet\<close>

text \<open>
  The attributes of a \<^verbatim>\<open>TradingEngine\<close> object: those its \<^verbatim>\<open>__init__\<close> assigns (no other
  method and no caller assigns one) and the methods of the class.
\<close>

definition TradingEngine_init_attributes :: "string list" where
  "TradingEngine_init_attributes =
     [''solana'', ''db'', ''payment'', ''active_orders'', ''copy_trading_subscriptions'',
      ''is_running'', ''price_monitors'']"

definition TradingEngine_methods :: "string list" where
  "TradingEngine_methods =
     [''__init__'', ''start_monitoring'', ''stop_monitoring'', ''_load_active_orders'',
      ''_load_copy_trading_subscriptions'', ''create_trade_order'', ''_validate_order'',
      ''_process_orders'', ''_execute_market_order'', ''_monitor_limit_orders'',
      ''_check_limit_order'', ''_send_limit_order_alert'', ''_check_snipe_order'',
      ''_monitor_copy_trading'', ''_execute_copy_trades'', ''_send_copy_trade_alert'',
      ''subscribe_copy_trading'', ''unsubscribe_copy_trading'',
      ''get_copy_trading_subscriptions'', ''update_copy_trading_settings'',
      ''get_user_orders'', ''cancel_user_order'', ''execute_market_buy'',
      ''execute_market_sell'', ''create_limit_order'', ''get_user_trade_history'',
      ''get_user_portfolio'', ''get_trading_statistics'', ''get_market_analysis'',
      ''create_snipe_order'', ''execute_snipe_trade'', ''_send_snipe_alert'',
      ''get_user_snipe_orders'', ''cancel_snipe_order'', ''_get_token_price_at_time'',
      ''_monitor_stop_losses'', ''_check_stop_loss'', ''_execute_stop_loss'',
      ''_send_stop_loss_alert'']"

definition has_attribute :: "string \<Rightarrow> bool" where
  "has_attribute name = (name \<in> set (TradingEngine_init_attributes @ TradingEngine_methods))"

text \<open>\<^verbatim>\<open>{**default_settings, **(settings or {})}\<close>: a key of the right-hand side wins.\<close>

definition default_copy_settings :: copy_settings where
  "default_copy_settings =
     \<lparr>cs_enabled = Some True, cs_copy_percentage = Some 100, cs_max_copy_amount = Some 1.0,
      cs_min_trade_amount = Some 0.1, cs_copy_delay = Some 0, cs_risk_level = Some ''medium''\<rparr>"

definition override :: "'a option \<Rightarrow> 'a option \<Rightarrow> 'a option" where
  "override d s = (case s of None \<Rightarrow> d | Some v \<Rightarrow> Some v)"

definition merge_copy_settings :: "copy_settings \<Rightarrow> copy_settings \<Rightarrow> copy_settings" where
  "merge_copy_settings d s =
     \<lparr>cs_enabled = override (cs_enabled d) (cs_enabled s),
      cs_copy_percentage = override (cs_copy_percentage d) (cs_copy_percentage s),
      cs_max_copy_amount = override (cs_max_copy_amount d) (cs_max_copy_amount s),
      cs_min_trade_amount = override (cs_min_trade_amount d) (cs_min_trade_amount s),
      cs_copy_delay = override (cs_copy_delay d) (cs_copy_delay s),
      cs_risk_level = override (cs_risk_level d) (cs_risk_level s)\<rparr>"

text \<open>
  \<^verbatim>\<open>db.store_copy_trading_subscription\<close>: the insert either stores the document and
  answers true, or raises, which is caught and answered false.
\<close>

definition store_copy_trading_subscription ::
  "bool \<Rightarrow> copy_subscription \<Rightarrow> copy_subscription list \<Rightarrow> copy_subscription list \<times> bool"
where
  "store_copy_trading_subscription insert_ok subscription_data subs =
     (if insert_ok then (subs @ [subscription_data], True) else (subs, False))"

datatype subscribe_message =
    Invalid_wallet_address
  | Successfully_subscribed
  | Failed_to_store_subscription
  | Error_no_attribute string string

text \<open>
  \<^verbatim>\<open>subscribe_copy_trading(user_id, wallet_address, settings)\<close> on the collection
  \<^verbatim>\<open>copy_trading_subscriptions\<close>. Reading \<^verbatim>\<open>self.analyzer\<close> raises an \<^verbatim>\<open>AttributeError\<close>
  when the object has no such attribute; the handler of the function turns it into
  the failure \<^verbatim>\<open>"Error: 'TradingEngine' object has no attribute 'analyzer'"\<close>.
\<close>

definition subscribe_copy_trading ::
  "(string \<Rightarrow> bool) \<Rightarrow> bool \<Rightarrow> copy_subscription list \<Rightarrow> int \<Rightarrow> string \<Rightarrow> copy_settings option
     \<Rightarrow> copy_subscription list \<times> bool \<times> subscribe_message"
where
  "subscribe_copy_trading validate_address insert_ok subs uid wallet_address custom =
     (if \<not> validate_address wallet_address then (subs, False, Invalid_wallet_address)
      else
        (let merged = merge_copy_settings default_copy_settings
                        (case custom of None \<Rightarrow> no_settings | Some s \<Rightarrow> s);
             subscription_data = \<lparr>sub_user_id = uid, sub_wallet_address = wallet_address,
                                   sub_copy_settings = Some merged, sub_is_active = True\<rparr>;
             stored = store_copy_trading_subscription insert_ok subscription_data subs
         in if snd stored
              then (if has_attribute ''analyzer''
                      then (fst stored, True, Successfully_subscribed)
                    else (fst stored, False, Error_no_attribute ''TradingEngine'' ''analyzer''))
            else (fst stored, False, Failed_to_store_subscription)))"

subsection \<open>Cancelling an order\<close>

datatype cancel_message = Order_not_found | Order_cancelled_successfully

text \<open>
  \<^verbatim>\<open>cancel_user_order(user_id, order_id)\<close> on the collection \<^verbatim>\<open>trades\<close> and the engine's
  dictionary \<^verbatim>\<open>active_orders\<close>. The lookup filters on
  \<^verbatim>\<open>{'_id': order_id, 'user_id': user_id}\<close> with the string \<open>order_id\<close>; the status update
  goes through \<^verbatim>\<open>update_trade_status\<close>.
\<close>

definition cancel_user_order ::
  "int \<Rightarrow> string \<Rightarrow> trade_doc list \<Rightarrow> (string \<rightharpoonup> TradeOrder)
     \<Rightarrow> (trade_doc list \<times> (string \<rightharpoonup> TradeOrder)) \<times> bool \<times> cancel_message"
where
  "cancel_user_order uid oid trades active_orders =
     (case find_one (\<lambda>t. trade_id t = Str_id oid \<and> tr_user_id t = uid) trades of
        None \<Rightarrow> ((trades, active_orders), False, Order_not_found)
      | Some order \<Rightarrow>
          ((update_trade_status oid CANCELLED trades, active_orders(oid := None)),
           True, Order_cancelled_successfully))"

text \<open>Concrete inputs used below.\<close>

definition stored_order :: "TradeStatus \<Rightarrow> trade_doc" where
  "stored_order s = \<lparr>trade_id = ObjectId ''65c3'', tr_user_id = 7, tr_status = s,
                      tr_output_token = Some ''TOK'', tr_entry_price = None,
                      tr_stop_loss = None, tr_output_amount = None,
                      tr_stop_loss_triggered = False\<rparr>"

definition order_in_status :: "TradeStatus \<Rightarrow> trade_doc" where
  "order_in_status s = \<lparr>trade_id = Str_id ''order-1'', tr_user_id = 7, tr_status = s,
                         tr_output_token = Some ''TOK'', tr_entry_price = None,
                         tr_stop_loss = None, tr_output_amount = None,
                         tr_stop_loss_triggered = False\<rparr>"

subsection \<open>Market orders of the intake path\<close>

text \<open>
  \<^verbatim>\<open>_execute_market_order(order_id, order)\<close> on the collection \<^verbatim>\<open>trades\<close>, the dictionary
  \<^verbatim>\<open>active_orders\<close> and the order ids for which the venue's swap was invoked. The status
  is set to executing without being read first. After a successful swap the function
  reads \<^verbatim>\<open>result['price_impact']\<close>; when the venue's answer has no such key (the answer
  of \<^verbatim>\<open>execute_swap\<close> as written has none) this raises, and the handler writes the status
  failed, as it does after a swap that fails.
\<close>

record market_state =
  ms_trades :: "trade_doc list"
  ms_active_orders :: "string \<rightharpoonup> TradeOrder"
  ms_swaps :: "string list"

definition execute_market_order ::
  "bool \<Rightarrow> bool \<Rightarrow> string \<Rightarrow> TradeOrder \<Rightarrow> market_state \<Rightarrow> market_state"
where
  "execute_market_order swap_ok has_price_impact oid order st =
     (let st1 = st\<lparr>ms_trades := update_trade_status oid EXECUTING (ms_trades st)\<rparr>;
          st2 = st1\<lparr>ms_swaps := ms_swaps st1 @ [oid]\<rparr>
      in st2\<lparr>ms_trades := update_trade_status oid
                               (if swap_ok \<and> has_price_impact then COMPLETED else FAILED)
                               (ms_trades st2),
             ms_active_orders := (ms_active_orders st2)(oid := None)\<rparr>)"

subsection \<open>Limit orders\<close>

text \<open>
  A document of the collection \<^verbatim>\<open>orders\<close>, which \<^verbatim>\<open>_monitor_limit_orders\<close> scans. Every key
  read with \<^verbatim>\<open>get\<close> or with a subscript may be absent; a subscript on an absent key
  raises a \<^verbatim>\<open>KeyError\<close>, which \<^verbatim>\<open>_check_limit_order\<close> catches, leaving the order as it is.
\<close>

record order_doc =
  order_id :: bson_id
  ord_user_id :: int
  ord_status :: TradeStatus
  ord_trade_type :: "string option"
  ord_price :: "real option"
  ord_input_token :: "string option"
  ord_output_token :: "string option"
  ord_amount_sol :: "real option"
  ord_amount_tokens :: "real option"
  ord_expires_at :: "real option"
  ord_created_at :: real

text \<open>
  \<^verbatim>\<open>DatabaseManager.update_order_status\<close> filters on \<^verbatim>\<open>{'_id': order_id}\<close> with the string
  it is given.
\<close>

definition update_order_status :: "string \<Rightarrow> TradeStatus \<Rightarrow> order_doc list \<Rightarrow> order_doc list" where
  "update_order_status oid status orders =
     update_one (\<lambda>d. order_id d = Str_id oid) (\<lambda>d. d\<lparr>ord_status := status\<rparr>) orders"

text \<open>
  \<^verbatim>\<open>get_all_pending_orders(status='pending')\<close>: the pending orders, newest first, at most
  100 of them.
\<close>

definition get_all_pending_orders :: "order_doc list \<Rightarrow> order_doc list" where
  "get_all_pending_orders orders =
     take 100 (sort_key (\<lambda>d. - ord_created_at d) (filter (\<lambda>d. ord_status d = PENDING) orders))"

text \<open>
  The state the limit-order monitor works on: the collection \<^verbatim>\<open>orders\<close>, the market calls
  made for an order id, and the order ids for which the venue's swap was invoked, one
  entry per invocation.
\<close>

record limit_state =
  lo_orders :: "order_doc list"
  lo_calls :: "(string \<times> market_call) list"
  lo_swaps :: "string list"

text \<open>
  What one pass observes: the \<^verbatim>\<open>price\<close> field the oracle answers for a token, the
  user's own maximum, whether the venue reports the swap for an order as successful,
  and the clock.
  Neither \<^verbatim>\<open>_monitor_limit_orders\<close> nor \<^verbatim>\<open>_check_limit_order\<close> reads the clock.
\<close>

record limit_observation =
  lob_price :: "string \<Rightarrow> real option"
  lob_user_max_amount :: "int \<Rightarrow> real option"
  lob_swap_ok :: "string \<Rightarrow> bool"
  lob_now :: real

text \<open>
  Lines 397 to 430 of \<^verbatim>\<open>_check_limit_order\<close>: with the result of the market call, the
  order becomes completed or failed.
\<close>

definition record_limit_result ::
  "string \<Rightarrow> market_call \<Rightarrow> bool \<times> bool \<Rightarrow> limit_state \<Rightarrow> limit_state"
where
  "record_limit_result oid call result st =
     st\<lparr>lo_calls := lo_calls st @ [(oid, call)],
        lo_swaps := (if snd result then lo_swaps st @ [oid] else lo_swaps st),
        lo_orders := update_order_status oid (if fst result then COMPLETED else FAILED)
                       (lo_orders st)\<rparr>"

definition check_limit_order ::
  "engine \<Rightarrow> limit_observation \<Rightarrow> string \<Rightarrow> order_doc \<Rightarrow> limit_state \<Rightarrow> limit_state"
where
  "check_limit_order cfg ob oid order st =
     (case ord_output_token order of
        None \<Rightarrow> st
      | Some output_tok \<Rightarrow>
          (let current_price = (case lob_price ob output_tok of None \<Rightarrow> 0 | Some p \<Rightarrow> p)
           in if current_price = 0 then st
              else
                (let order_type = (case ord_trade_type order of
                                     None \<Rightarrow> ''limit_buy'' | Some t \<Rightarrow> t);
                     limit_price = (case ord_price order of None \<Rightarrow> 0 | Some p \<Rightarrow> p);
                     should_execute =
                       (if order_type = ''limit_buy'' \<and> limit_price > 0
                          then current_price \<le> limit_price
                        else if order_type = ''limit_sell'' \<and> limit_price > 0
                          then current_price \<ge> limit_price
                        else False)
                 in if should_execute then
                      (if order_type = ''limit_buy'' then
                         (case ord_amount_sol order of
                            None \<Rightarrow> st
                          | Some amount_sol \<Rightarrow>
                              record_limit_result oid
                                (Market_buy (ord_user_id order) output_tok amount_sol)
                                (execute_market_buy cfg (lob_user_max_amount ob (ord_user_id order))
                                   amount_sol (lob_swap_ok ob oid))
                                st)
                       else
                         (case ord_input_token order of
                            None \<Rightarrow> st
                          | Some input_tok \<Rightarrow>
                              (case ord_amount_tokens order of
                                 None \<Rightarrow> st
                               | Some amount_tokens \<Rightarrow>
                                   record_limit_result oid
                                     (Market_sell (ord_user_id order) input_tok amount_tokens)
                                     (execute_market_sell cfg amount_tokens (lob_swap_ok ob oid))
                                     st)))
                    else st)))"

text \<open>
  One pass of \<^verbatim>\<open>_monitor_limit_orders\<close>: the query is answered once, then each order of
  the answer is checked in turn, under the string form of its id.
\<close>

definition monitor_limit_orders_tick ::
  "engine \<Rightarrow> limit_observation \<Rightarrow> limit_state \<Rightarrow> limit_state"
where
  "monitor_limit_orders_tick cfg ob st =
     foldl (\<lambda>s order. check_limit_order cfg ob (str_id (order_id order)) order s) st
       (get_all_pending_orders (lo_orders st))"

fun monitor_limit_orders ::
  "engine \<Rightarrow> limit_observation list \<Rightarrow> limit_state \<Rightarrow> limit_state"
where
  "monitor_limit_orders cfg [] st = st"
| "monitor_limit_orders cfg (ob # obs) st =
     monitor_limit_orders cfg obs (monitor_limit_orders_tick cfg ob st)"

text \<open>
  Two or more tasks running \<^verbatim>\<open>_monitor_limit_orders\<close>, under the scheduler introduced
  for the stop-loss monitor.
\<close>

record limit_tasks =
  lt_engine :: limit_state
  lt_answer :: "nat \<Rightarrow> order_doc list"

fun limit_task_step ::
  "engine \<Rightarrow> limit_observation \<Rightarrow> monitor_action \<Rightarrow> limit_tasks \<Rightarrow> limit_tasks"
where
  "limit_task_step cfg ob (Query k) ts =
     ts\<lparr>lt_answer := (lt_answer ts)(k := get_all_pending_orders (lo_orders (lt_engine ts)))\<rparr>"
| "limit_task_step cfg ob (Check_next k) ts =
     (case lt_answer ts k of
        [] \<Rightarrow> ts
      | order # rest \<Rightarrow>
          ts\<lparr>lt_engine := check_limit_order cfg ob (str_id (order_id order)) order (lt_engine ts),
             lt_answer := (lt_answer ts)(k := rest)\<rparr>)"

fun limit_tasks_run ::
  "engine \<Rightarrow> limit_observation \<Rightarrow> monitor_action list \<Rightarrow> limit_tasks \<Rightarrow> limit_tasks"
where
  "limit_tasks_run cfg ob [] ts = ts"
| "limit_tasks_run cfg ob (a # as) ts = limit_tasks_run cfg ob as (limit_task_step cfg ob a ts)"

definition swaps_of :: "string \<Rightarrow> limit_state \<Rightarrow> nat" where
  "swaps_of oid st = length (filter (\<lambda>i. i = oid) (lo_swaps st))"

text \<open>
  The invariant of passes run one after the other over orders stored under string ids:
  an order for which the swap was invoked is no longer pending.
\<close>

definition settled :: "string \<Rightarrow> order_doc list \<Rightarrow> bool" where
  "settled oid orders = (\<forall>d\<in>set orders. order_id d = Str_id oid \<longrightarrow> ord_status d \<noteq> PENDING)"

definition limit_inv :: "limit_state \<Rightarrow> bool" where
  "limit_inv st =
     (distinct (map order_id (lo_orders st))
      \<and> (\<forall>d\<in>set (lo_orders st). \<not> is_ObjectId (order_id d))
      \<and> (\<forall>oid. swaps_of oid st \<le> 1
                \<and> (1 \<le> swaps_of oid st \<longrightarrow> settled oid (lo_orders st))))"

text \<open>Concrete inputs used below.\<close>

definition limit_buy_at_10 :: "bson_id \<Rightarrow> order_doc" where
  "limit_buy_at_10 i =
     \<lparr>order_id = i, ord_user_id = 7, ord_status = PENDING,
      ord_trade_type = Some ''limit_buy'', ord_price = Some 10, ord_input_token = Some ''SOL'',
      ord_output_token = Some ''TOK'', ord_amount_sol = Some 1, ord_amount_tokens = None,
      ord_expires_at = Some 100, ord_created_at = 50\<rparr>"

definition one_limit_order :: "bson_id \<Rightarrow> limit_state" where
  "one_limit_order i = \<lparr>lo_orders = [limit_buy_at_10 i], lo_calls = [], lo_swaps = []\<rparr>"

definition seen_price :: "real \<Rightarrow> real \<Rightarrow> limit_observation" where
  "seen_price p now = \<lparr>lob_price = (\<lambda>t. Some p), lob_user_max_amount = (\<lambda>u. None),
                        lob_swap_ok = (\<lambda>i. True), lob_now = now\<rparr>"

section \<open>Theorems\<close>

subsection \<open>C8: the order of the validation checks\<close>

text \<open>
  C8, as the code has it. \<^verbatim>\<open>_validate_order\<close> looks the user up first (an unknown user is
  rejected), and then returns the reason of the first failing check in this order:
  feature gating (a free-tier account may not place a copy-trade order; no other kind is
  gated), amount not below the global minimum, amount not above the global maximum,
  amount not above the account's personal maximum, address format of the input asset,
  address format of the output asset, slippage within [0.1, 50]. It returns a verdict
  only and writes nothing.
\<close>

theorem validate_order_first_failing_in_code_order:
  "validate_order cfg get_user validate_address order =
     (case get_user (user_id order) of
        None \<Rightarrow> (False, User_not_found)
      | Some user \<Rightarrow> first_failing (checks_in_code_order cfg validate_address user order))"
  by (cases "subscription_tier (the (get_user (user_id order)))")
     (simp_all add: validate_order_def checks_in_code_order_def Let_def split: option.splits)

text \<open>
  C8 as stated fails: the amount check is not the first one, and snipe orders are not
  gated. A free-tier copy-trade order whose amount is below the global minimum is
  rejected for its kind, not for its amount; a free-tier snipe order passes validation.
\<close>

theorem validate_order_gating_first_counterexample:
  "amount tiny_copy_order < MIN_TRADE_AMOUNT default_settings
   \<and> validate_order default_settings (\<lambda>u. Some free_user) (\<lambda>a. True) tiny_copy_order
       = (False, Copy_trading_requires_premium)
   \<and> validate_order default_settings (\<lambda>u. Some free_user) (\<lambda>a. True) snipe_order_free
       = (True, Order_validated)"
  by (simp add: validate_order_def default_settings_def free_user_def tiny_copy_order_def
        snipe_order_free_def)

subsection \<open>C9: the amount of a mirrored trade\<close>

lemma min_div_100: "min (x * p) (m * 100) / 100 = min (x / 100 * p) (m::real)"
  by (simp add: min_def divide_simps)

text \<open>
  C9, as the code has it. For a subscriber whose settings have \<open>enabled\<close> set and a
  source trade classified as buy, sell or swap, the amount of the child order is the
  observed amount scaled by the copy percentage (default 100) and capped at the maximum
  copy amount (default 1), where the observed amount is the transaction's \<open>amount\<close> when
  it reports no positive \<open>amount_usd\<close> and is \<open>amount_usd / 100\<close> otherwise. The child
  order is dropped exactly when that amount is below the constant 0.01; the subscriber's
  own \<open>min_trade_amount\<close> is not read.
\<close>

theorem copy_trade_amount_scaled_and_capped:
  assumes "sub_copy_settings user_data = Some cs"
    and "cs_enabled cs = Some True"
    and "type = ''buy'' \<or> type = ''sell'' \<or> type = ''swap''"
  shows "map_option call_amount
           (copy_trade_for_user type input_tok output_tok amt amt_usd user_data)
         = (let observed = (if amt_usd > 0 then amt_usd / 100 else amt);
                c = scaled_and_capped
                      (case cs_copy_percentage cs of None \<Rightarrow> 100 | Some p \<Rightarrow> p)
                      (case cs_max_copy_amount cs of None \<Rightarrow> 1 | Some m \<Rightarrow> m)
                      observed
            in if c < 0.01 then None else Some c)"
proof -
  define P where "P = (case cs_copy_percentage cs of None \<Rightarrow> 100 | Some p \<Rightarrow> p)"
  define M where "M = (case cs_max_copy_amount cs of None \<Rightarrow> 1 | Some m \<Rightarrow> m)"
  have code: "copy_amount cs amt amt_usd
        = (if amt_usd > 0 then min (amt_usd * (P / 100)) (M * 100) / 100
           else min (amt * (P / 100)) M)"
    by (simp add: copy_amount_def Let_def P_def M_def)
  have usd: "min (amt_usd * (P / 100)) (M * 100) / 100 = min (amt_usd / 100 * (P / 100)) M"
    by (rule min_div_100)
  have "copy_amount cs amt amt_usd
        = scaled_and_capped P M (if amt_usd > 0 then amt_usd / 100 else amt)"
    unfolding code usd by (simp add: scaled_and_capped_def)
  with assms show ?thesis
    unfolding P_def M_def by (auto simp: copy_trade_for_user_def Let_def)
qed

text \<open>
  The scenario of the spec, on a transaction without a USD amount: 50 percent of 1.0,
  capped at 0.3, gives a child order of exactly 0.3.
\<close>

theorem copy_trade_amount_scaled_and_capped_witness:
  "map_option call_amount (copy_trade_for_user ''buy'' SOL_MINT ''TOK'' 1 0 follower) = Some 0.3"
  using copy_trade_amount_scaled_and_capped
          [of follower half_capped "''buy''" SOL_MINT "''TOK''" 1 0]
  by (simp add: follower_def half_capped_def scaled_and_capped_def)

text \<open>
  C9 as stated fails twice. With a USD amount of 20 reported for the same source trade
  of 1.0, the child order is 0.1, not 0.3. And a subscriber whose configured minimum
  is 0.1 still gets a child order of 0.05 for a source trade of 0.1.
\<close>

theorem copy_trade_amount_counterexample:
  "copy_trade_for_user ''buy'' SOL_MINT ''TOK'' 1 20 follower = Some (Market_buy 7 ''TOK'' 0.1)
   \<and> cs_min_trade_amount half_capped = Some 0.1
   \<and> copy_trade_for_user ''buy'' SOL_MINT ''TOK'' 0.1 0 follower = Some (Market_buy 7 ''TOK'' 0.05)"
  by (simp add: copy_trade_for_user_def copy_amount_def follower_def half_capped_def)

subsection \<open>C3: relaying a source transaction\<close>

lemma length_map_filter_le:
  "length (filter P (List.map_filter f xs)) \<le> length (filter (\<lambda>x. \<exists>y. f x = Some y \<and> P y) xs)"
  by (induction xs) (auto split: option.splits)

lemma copy_trade_for_user_same_user:
  "copy_trade_for_user ty i out a u s = Some c \<Longrightarrow> call_user c = sub_user_id s"
  by (auto simp: copy_trade_for_user_def Let_def split: if_splits)

lemma relays_of_append: "relays_of sg uid (xs @ ys) = relays_of sg uid xs + relays_of sg uid ys"
  by (simp add: relays_of_def)

lemma relays_of_replicate:
  "relays_of sg uid (monitor_copy_trading subs (replicate n ob))
   = n * relays_of sg uid (monitor_copy_trading_tick subs ob)"
  by (induction n) (simp_all add: relays_of_append relays_of_def)

lemma execute_copy_trades_per_user:
  "length (filter (\<lambda>c. call_user c = uid) (execute_copy_trades w tx users))
   \<le> length (filter (\<lambda>s. sub_user_id s = uid) users)"
proof -
  have "length (filter (\<lambda>c. call_user c = uid) (List.map_filter (copy_trade_for_user ty i out a u) users))
        \<le> length (filter (\<lambda>s. sub_user_id s = uid) users)" for ty i out a u
  proof -
    have "length (filter (\<lambda>c. call_user c = uid) (List.map_filter (copy_trade_for_user ty i out a u) users))
          \<le> length (filter (\<lambda>s. \<exists>c. copy_trade_for_user ty i out a u s = Some c \<and> call_user c = uid) users)"
      by (rule length_map_filter_le)
    also have "\<dots> \<le> length (filter (\<lambda>s. sub_user_id s = uid) users)"
      by (induction users) (auto dest: copy_trade_for_user_same_user)
    finally show ?thesis .
  qed
  then show ?thesis
    by (auto simp: execute_copy_trades_def Let_def split: option.splits)
qed

lemma relays_of_run:
  "relays_of sg uid (monitor_copy_trading subs obs)
   = sum_list (map (\<lambda>ob. relays_of sg uid (monitor_copy_trading_tick subs ob)) obs)"
  by (induction obs) (simp_all add: relays_of_append relays_of_def)

text \<open>
  C3, as the code has it. One fan-out of one observed transaction makes at most one
  child order per subscription record of the wallet. Nothing is remembered between the
  passes of the monitor: a transaction that \<open>n\<close> passes observe is relayed to a subscriber
  \<open>n\<close> times as often as one pass relays it, and in general the relays of a run are those
  of its passes added up.
\<close>

theorem copy_relay_repeats_every_tick:
  "length (filter (\<lambda>c. call_user c = uid) (execute_copy_trades w tx users))
     \<le> length (filter (\<lambda>s. sub_user_id s = uid) users)
   \<and> relays_of sg uid (monitor_copy_trading subs (replicate n ob))
     = n * relays_of sg uid (monitor_copy_trading_tick subs ob)
   \<and> relays_of sg uid (monitor_copy_trading subs obs)
     = sum_list (map (\<lambda>ob. relays_of sg uid (monitor_copy_trading_tick subs ob)) obs)"
  using execute_copy_trades_per_user relays_of_replicate relays_of_run by blast

text \<open>
  C3 as stated fails: two passes that both see the source transaction \<open>S1\<close> among the
  recent transactions of wallet \<open>W\<close> submit two child orders for subscriber 7.
\<close>

theorem copy_relay_twice_counterexample:
  "relays_of ''S1'' 7
     (monitor_copy_trading [(7, [''W''])] [seen_source_buy, seen_source_buy\<lparr>ob_now := 1020\<rparr>]) = 2"
  by (simp add: relays_of_def monitor_copy_trading_tick_def relay_transaction_def
        seen_source_buy_def source_buy_def is_recent_def detect_trade_type_def
        execute_copy_trades_def follower_def half_capped_def copy_trade_for_user_def
        copy_amount_def SOL_MINT_def)

subsection \<open>C7: when the stop-loss fires\<close>

text \<open>
  C7. For a trade with an output token, entry price \<open>E > 0\<close>, stop-loss percentage
  \<open>T > 0\<close>, held amount \<open>A > 0\<close> and an available price \<open>C > 0\<close>, the check submits the market
  sell of the full amount \<open>A\<close> if and only if the drawdown \<open>(E - C) / E * 100\<close> is at least
  \<open>T\<close>, and otherwise changes nothing. When the entry price is missing or zero, the
  stop-loss percentage is missing or zero, or the price of the token is unavailable,
  the check changes nothing.
\<close>

theorem stop_loss_fires_iff_drawdown_reaches_threshold:
  "(tr_output_token trade = Some tok \<and> tok \<noteq> [] \<and> tr_entry_price trade = Some E \<and> 0 < E
      \<and> tr_stop_loss trade = Some T \<and> 0 < T \<and> tr_output_amount trade = Some A \<and> 0 < A
      \<and> so_price ob tok = Some C \<and> 0 < C
    \<longrightarrow> ((sl_sells (check_stop_loss eng ob trade st)
           = sl_sells st @ [(trade_id trade, Market_sell (tr_user_id trade) tok A,
                             so_swap_ok ob (trade_id trade) \<and> payment_present eng)])
          = (T \<le> (E - C) / E * 100))
        \<and> (\<not> T \<le> (E - C) / E * 100 \<longrightarrow> check_stop_loss eng ob trade st = st))
   \<and> (tr_entry_price trade = None \<or> tr_entry_price trade = Some 0
        \<or> tr_stop_loss trade = None \<or> tr_stop_loss trade = Some 0
        \<or> (tr_output_token trade = Some tok \<and> (so_price ob tok = None \<or> so_price ob tok = Some 0))
      \<longrightarrow> check_stop_loss eng ob trade st = st)"
proof (intro conjI impI)
  assume h: "tr_output_token trade = Some tok \<and> tok \<noteq> [] \<and> tr_entry_price trade = Some E \<and> 0 < E
      \<and> tr_stop_loss trade = Some T \<and> 0 < T \<and> tr_output_amount trade = Some A \<and> 0 < A
      \<and> so_price ob tok = Some C \<and> 0 < C"
  then have eq: "((C - E) / E * 100 \<le> - T) = (T \<le> (E - C) / E * 100)"
    by (simp add: field_simps)
  from h eq show "(sl_sells (check_stop_loss eng ob trade st)
           = sl_sells st @ [(trade_id trade, Market_sell (tr_user_id trade) tok A,
                             so_swap_ok ob (trade_id trade) \<and> payment_present eng)])
          = (T \<le> (E - C) / E * 100)"
    by (simp add: check_stop_loss_def execute_stop_loss_def execute_market_sell_def Let_def)
  assume "\<not> T \<le> (E - C) / E * 100"
  with h eq show "check_stop_loss eng ob trade st = st"
    by (simp add: check_stop_loss_def)
next
  assume "tr_entry_price trade = None \<or> tr_entry_price trade = Some 0
        \<or> tr_stop_loss trade = None \<or> tr_stop_loss trade = Some 0
        \<or> (tr_output_token trade = Some tok \<and> (so_price ob tok = None \<or> so_price ob tok = Some 0))"
  then show "check_stop_loss eng ob trade st = st"
    by (auto simp: check_stop_loss_def Let_def split: option.splits)
qed

text \<open>
  At an entry price of 10 and a threshold of 20 percent, a price of 8 (drawdown exactly
  20) fires the sell of the 5 tokens held, a price of 8.5 does not; an unavailable price
  leaves the trade alone.
\<close>

theorem stop_loss_fires_iff_drawdown_reaches_threshold_witness:
  "sl_sells (check_stop_loss engine_with_payment (price_at 8 True) held_position one_position)
     = [(ObjectId ''65a1'', Market_sell 7 ''TOK'' 5, True)]
   \<and> check_stop_loss engine_with_payment (price_at 8.5 True) held_position one_position = one_position
   \<and> check_stop_loss engine_with_payment (price_at 0 True) held_position one_position = one_position"
  using stop_loss_fires_iff_drawdown_reaches_threshold
          [where eng = engine_with_payment and trade = held_position and tok = "''TOK''" and E = 10 and T = 20 and A = 5
             and ob = "price_at 8 True" and C = 8 and st = one_position]
        stop_loss_fires_iff_drawdown_reaches_threshold
          [where eng = engine_with_payment and trade = held_position and tok = "''TOK''" and E = 10 and T = 20 and A = 5
             and ob = "price_at 8.5 True" and C = "8.5" and st = one_position]
        stop_loss_fires_iff_drawdown_reaches_threshold
          [where eng = engine_with_payment and trade = held_position and tok = "''TOK''" and E = 10 and T = 20 and A = 5
             and ob = "price_at 0 True" and C = 0 and st = one_position]
  by (simp add: held_position_def price_at_def one_position_def engine_with_payment_def)

subsection \<open>C6: how often the forced sell is made\<close>

lemma check_stop_loss_cases:
  "check_stop_loss eng ob t s = s
   \<or> (\<exists>c. check_stop_loss eng ob t s = s\<lparr>sl_sells := sl_sells s @ [(trade_id t, c, False)]\<rparr>)
   \<or> (\<exists>c. check_stop_loss eng ob t s =
            s\<lparr>sl_sells := sl_sells s @ [(trade_id t, c, True)],
              sl_trades := update_trade_stop_loss_triggered (str_id (trade_id t)) (sl_trades s)\<rparr>)"
  by (auto simp: check_stop_loss_def execute_stop_loss_def execute_market_sell_def Let_def
           split: option.splits)

lemma trade_ids_update_triggered:
  "map trade_id (update_trade_stop_loss_triggered tid ts) = map trade_id ts"
  unfolding update_trade_stop_loss_triggered_def by (induction ts) auto

lemma flagged_update_same:
  "distinct (map trade_id ts) \<Longrightarrow> flagged (ObjectId tid) (update_trade_stop_loss_triggered tid ts)"
  unfolding update_trade_stop_loss_triggered_def flagged_def
  by (induction ts) (auto simp: image_iff)

lemma flagged_update_mono:
  "flagged x ts \<Longrightarrow> flagged x (update_trade_stop_loss_triggered tid ts)"
  unfolding update_trade_stop_loss_triggered_def flagged_def
  by (induction ts) auto

lemma ObjectId_str_id: "is_ObjectId i \<Longrightarrow> ObjectId (str_id i) = i"
  by (cases i) simp_all

lemma check_stop_loss_step:
  assumes inv: "stop_loss_inv s" and fresh: "sells_succeeded (trade_id t) s = 0"
    and oid: "is_ObjectId (trade_id t)"
  shows "stop_loss_inv (check_stop_loss eng ob t s)
         \<and> (tid \<noteq> trade_id t \<longrightarrow> sells_succeeded tid (check_stop_loss eng ob t s) = sells_succeeded tid s)"
proof -
  let ?s' = "check_stop_loss eng ob t s"
  consider (same) "?s' = s"
    | (failed) c where "?s' = s\<lparr>sl_sells := sl_sells s @ [(trade_id t, c, False)]\<rparr>"
    | (sold) c where "?s' = s\<lparr>sl_sells := sl_sells s @ [(trade_id t, c, True)],
                             sl_trades := update_trade_stop_loss_triggered (str_id (trade_id t)) (sl_trades s)\<rparr>"
    using check_stop_loss_cases by blast
  then show ?thesis
  proof cases
    case same
    with inv show ?thesis by simp
  next
    case failed
    then have "sells_succeeded x ?s' = sells_succeeded x s" for x
      by (simp add: sells_succeeded_def)
    moreover have "sl_trades ?s' = sl_trades s" using failed by simp
    ultimately show ?thesis using inv by (simp add: stop_loss_inv_def)
  next
    case sold
    have other: "sells_succeeded x ?s' = sells_succeeded x s" if "x \<noteq> trade_id t" for x
      using sold that by (auto simp: sells_succeeded_def)
    have this_one: "sells_succeeded (trade_id t) ?s' = 1"
      using sold fresh by (simp add: sells_succeeded_def)
    have tr: "sl_trades ?s' = update_trade_stop_loss_triggered (str_id (trade_id t)) (sl_trades s)"
      using sold by simp
    have d: "distinct (map trade_id (sl_trades s))"
      using inv by (simp add: stop_loss_inv_def)
    have o: "\<forall>u\<in>set (sl_trades s). is_ObjectId (trade_id u)"
      using inv by (simp add: stop_loss_inv_def)
    have ids: "map trade_id (sl_trades ?s') = map trade_id (sl_trades s)"
      using tr by (simp add: trade_ids_update_triggered)
    have o': "\<forall>u\<in>set (sl_trades ?s'). is_ObjectId (trade_id u)"
    proof
      fix u assume "u \<in> set (sl_trades ?s')"
      then have "trade_id u \<in> set (map trade_id (sl_trades ?s'))" by simp
      then have "trade_id u \<in> set (map trade_id (sl_trades s))" using ids by simp
      then show "is_ObjectId (trade_id u)" using o by auto
    qed
    have fl: "flagged (trade_id t) (sl_trades ?s')"
      using flagged_update_same [OF d, of "str_id (trade_id t)"] tr oid
      by (simp add: ObjectId_str_id)
    have "sells_succeeded x ?s' \<le> 1 \<and> (1 \<le> sells_succeeded x ?s' \<longrightarrow> flagged x (sl_trades ?s'))" for x
    proof (cases "x = trade_id t")
      case True
      then show ?thesis using this_one fl by simp
    next
      case False
      then show ?thesis
        using other [OF False] tr inv by (simp add: stop_loss_inv_def flagged_update_mono)
    qed
    then show ?thesis
      using ids d o' other by (simp add: stop_loss_inv_def)
  qed
qed

lemma stop_loss_scan_inv:
  "stop_loss_inv s \<Longrightarrow> distinct (map trade_id ts)
   \<Longrightarrow> (\<forall>t\<in>set ts. sells_succeeded (trade_id t) s = 0 \<and> is_ObjectId (trade_id t))
   \<Longrightarrow> stop_loss_inv (foldl (\<lambda>s trade. check_stop_loss eng ob trade s) s ts)"
proof (induction ts arbitrary: s)
  case Nil
  then show ?case by simp
next
  case (Cons t ts)
  have fresh: "sells_succeeded (trade_id t) s = 0" and oid: "is_ObjectId (trade_id t)"
    using Cons.prems(3) by simp_all
  note step = check_stop_loss_step [OF Cons.prems(1) fresh oid]
  have inv': "stop_loss_inv (check_stop_loss eng ob t s)"
    using step [where ob = ob and eng = eng] by simp
  have "\<forall>u\<in>set ts. sells_succeeded (trade_id u) (check_stop_loss eng ob t s) = 0 \<and> is_ObjectId (trade_id u)"
  proof
    fix u assume u: "u \<in> set ts"
    then have "trade_id u \<noteq> trade_id t" using Cons.prems(2) by (auto simp: image_iff)
    then show "sells_succeeded (trade_id u) (check_stop_loss eng ob t s) = 0 \<and> is_ObjectId (trade_id u)"
      using step [where tid = "trade_id u" and ob = ob and eng = eng] Cons.prems(3) u by simp
  qed
  moreover have "distinct (map trade_id ts)" using Cons.prems(2) by simp
  ultimately show ?case using Cons.IH [OF inv'] by simp
qed

lemma stop_loss_tick_inv:
  assumes "stop_loss_inv s"
  shows "stop_loss_inv (monitor_stop_losses_tick eng ob s)"
  unfolding monitor_stop_losses_tick_def
proof (rule stop_loss_scan_inv [OF assms])
  show "distinct (map trade_id (get_completed_trades_with_stop_loss (sl_trades s)))"
    using assms
    by (simp add: stop_loss_inv_def get_completed_trades_with_stop_loss_def distinct_map_filter)
  show "\<forall>t\<in>set (get_completed_trades_with_stop_loss (sl_trades s)).
          sells_succeeded (trade_id t) s = 0 \<and> is_ObjectId (trade_id t)"
  proof
    fix t assume "t \<in> set (get_completed_trades_with_stop_loss (sl_trades s))"
    then have t: "t \<in> set (sl_trades s)" and "\<not> tr_stop_loss_triggered t"
      by (auto simp: get_completed_trades_with_stop_loss_def)
    then have "\<not> flagged (trade_id t) (sl_trades s)" by (auto simp: flagged_def)
    then have "\<not> 1 \<le> sells_succeeded (trade_id t) s"
      using assms by (auto simp: stop_loss_inv_def)
    then show "sells_succeeded (trade_id t) s = 0 \<and> is_ObjectId (trade_id t)"
      using assms t by (simp add: stop_loss_inv_def)
  qed
qed

lemma stop_loss_run_inv:
  "stop_loss_inv s \<Longrightarrow> stop_loss_inv (monitor_stop_losses eng obs s)"
  by (induction obs arbitrary: s) (simp_all add: stop_loss_tick_inv)

lemma sells_submitted_check_stop_loss:
  "sells_submitted x (check_stop_loss eng ob t s)
   \<le> sells_submitted x s + (if x = trade_id t then 1 else 0)"
  using check_stop_loss_cases [of eng ob t s]
  by (auto simp: sells_submitted_def)

lemma sells_submitted_scan:
  "sells_submitted x (foldl (\<lambda>s trade. check_stop_loss eng ob trade s) s ts)
   \<le> sells_submitted x s + length (filter (\<lambda>t. trade_id t = x) ts)"
proof (induction ts arbitrary: s)
  case Nil
  then show ?case by simp
next
  case (Cons t ts)
  let ?s1 = "check_stop_loss eng ob t s"
  have "sells_submitted x (foldl (\<lambda>s trade. check_stop_loss eng ob trade s) ?s1 ts)
        \<le> sells_submitted x ?s1 + length (filter (\<lambda>t. trade_id t = x) ts)"
    by (rule Cons.IH)
  moreover have "sells_submitted x ?s1 \<le> sells_submitted x s + (if x = trade_id t then 1 else 0)"
    by (rule sells_submitted_check_stop_loss)
  ultimately show ?case by auto
qed

lemma at_most_one_with_key:
  "distinct (map f ds) \<Longrightarrow> length (filter (\<lambda>d. f d = x) ds) \<le> Suc 0"
proof (induction ds)
  case Nil
  then show ?case by simp
next
  case (Cons d ds)
  show ?case
  proof (cases "f d = x")
    case True
    then have "filter (\<lambda>d. f d = x) ds = []"
      using Cons.prems by (auto simp: filter_empty_conv image_iff)
    with True show ?thesis by simp
  next
    case False
    then show ?thesis using Cons by simp
  qed
qed

lemma sells_submitted_tick:
  assumes "distinct (map trade_id (sl_trades st))"
  shows "sells_submitted tid (monitor_stop_losses_tick eng ob st) \<le> sells_submitted tid st + 1"
proof -
  have "distinct (map trade_id (get_completed_trades_with_stop_loss (sl_trades st)))"
    using assms by (simp add: get_completed_trades_with_stop_loss_def distinct_map_filter)
  then have "length (filter (\<lambda>t. trade_id t = tid)
                       (get_completed_trades_with_stop_loss (sl_trades st))) \<le> Suc 0"
    by (rule at_most_one_with_key)
  moreover have "sells_submitted tid (monitor_stop_losses_tick eng ob st)
        \<le> sells_submitted tid st
           + length (filter (\<lambda>t. trade_id t = tid)
                       (get_completed_trades_with_stop_loss (sl_trades st)))"
    unfolding monitor_stop_losses_tick_def by (rule sells_submitted_scan)
  ultimately show ?thesis by simp
qed

text \<open>
  C6, as the code has it. The flag is set only after a forced sell has returned success,
  and a pass works on the answer of the query it made at its start. What holds, for
  trades stored under distinct object ids, is this. One pass of the stop-loss monitor
  submits the forced sell at most once per trade. Over any sequence of passes run one
  after the other, starting with no forced sell made, at most one forced sell per trade
  returns success, whatever the engine's payment collaborator and the venue do. A
  forced sell that does not return success leaves the flag unset.
\<close>

theorem stop_loss_sell_succeeds_at_most_once:
  "(distinct (map trade_id (sl_trades st))
      \<longrightarrow> sells_submitted tid (monitor_stop_losses_tick eng ob st) \<le> sells_submitted tid st + 1)
   \<and> (distinct (map trade_id (sl_trades st))
        \<and> (\<forall>t\<in>set (sl_trades st). is_ObjectId (trade_id t)) \<and> sl_sells st = []
      \<longrightarrow> sells_succeeded tid (monitor_stop_losses eng obs st) \<le> 1)"
proof (intro conjI impI)
  assume "distinct (map trade_id (sl_trades st))"
  then show "sells_submitted tid (monitor_stop_losses_tick eng ob st) \<le> sells_submitted tid st + 1"
    by (rule sells_submitted_tick)
next
  assume "distinct (map trade_id (sl_trades st))
        \<and> (\<forall>t\<in>set (sl_trades st). is_ObjectId (trade_id t)) \<and> sl_sells st = []"
  then have "stop_loss_inv st" by (simp add: stop_loss_inv_def sells_succeeded_def)
  then have "stop_loss_inv (monitor_stop_losses eng obs st)" by (rule stop_loss_run_inv)
  then show "sells_succeeded tid (monitor_stop_losses eng obs st) \<le> 1"
    by (simp add: stop_loss_inv_def)
qed

text \<open>
  One held position: a pass submits at most one sell for it, and over three passes that
  all observe the drawdown, the first with a failing venue, one sell returns success.
\<close>

theorem stop_loss_sell_succeeds_at_most_once_witness:
  "sells_submitted (ObjectId ''65a1'')
     (monitor_stop_losses_tick engine_with_payment (price_at 8 True) one_position) \<le> 1
   \<and> sells_succeeded (ObjectId ''65a1'')
       (monitor_stop_losses engine_with_payment
          [price_at 8 False, price_at 7 True, price_at 6 True] one_position) \<le> 1"
  using stop_loss_sell_succeeds_at_most_once
          [of one_position "ObjectId ''65a1''" engine_with_payment "price_at 8 True"
              "[price_at 8 False, price_at 7 True, price_at 6 True]"]
  by (simp add: one_position_def held_position_def sells_submitted_def)

text \<open>
  C6 as stated fails, in both of its parts. Across passes: when the first forced sell
  fails at the venue, the next pass that observes the drawdown submits the sell again,
  so two sells are submitted for the one trade. With overlapping passes: two monitor
  tasks whose queries are both answered before either sell has completed each submit
  the sell, and both sells succeed.
\<close>

theorem stop_loss_sell_submitted_twice_counterexample:
  "sells_submitted (ObjectId ''65a1'')
     (monitor_stop_losses engine_with_payment [price_at 8 False, price_at 7 True] one_position) = 2
   \<and> sells_succeeded (ObjectId ''65a1'')
       (st_engine
          (stop_loss_tasks_run engine_with_payment (price_at 8 True)
             [Query 0, Query 1, Check_next 0, Check_next 1]
             \<lparr>st_engine = one_position, st_answer = (\<lambda>k. [])\<rparr>)) = 2"
  by (simp add: sells_submitted_def sells_succeeded_def monitor_stop_losses_tick_def
        one_position_def held_position_def price_at_def engine_with_payment_def
        get_completed_trades_with_stop_loss_def check_stop_loss_def execute_stop_loss_def
        execute_market_sell_def update_trade_stop_loss_triggered_def Let_def)

subsection \<open>C2: the budget of a snipe allocation\<close>

lemma execute_snipe_trade_max:
  "sn_max_amount (fst (execute_snipe_trade cfg um ok s tok)) = sn_max_amount s"
  by (simp add: execute_snipe_trade_def Let_def)

lemma execute_snipe_trade_spent:
  "sn_total_spent s \<le> sn_max_amount s
   \<Longrightarrow> sn_total_spent (fst (execute_snipe_trade cfg um ok s tok)) \<le> sn_max_amount s"
  by (simp add: execute_snipe_trade_def Let_def min_def)

lemma execute_snipe_trades_max:
  "sn_max_amount (execute_snipe_trades cfg calls s) = sn_max_amount s"
  by (induction cfg calls s rule: execute_snipe_trades.induct)
     (simp_all add: execute_snipe_trade_max)

lemma execute_snipe_trades_spent:
  "sn_total_spent s \<le> sn_max_amount s
   \<Longrightarrow> sn_total_spent (execute_snipe_trades cfg calls s) \<le> sn_max_amount s"
proof (induction cfg calls s rule: execute_snipe_trades.induct)
  case (1 cfg snipe)
  then show ?case by simp
next
  case (2 cfg token_address user_max_amount swap_ok calls snipe)
  let ?next = "fst (execute_snipe_trade cfg user_max_amount swap_ok snipe token_address)"
  have "sn_total_spent ?next \<le> sn_max_amount ?next"
    using "2.prems" by (simp add: execute_snipe_trade_spent execute_snipe_trade_max)
  then have "sn_total_spent (execute_snipe_trades cfg calls ?next) \<le> sn_max_amount ?next"
    by (rule "2.IH")
  then show ?case by (simp add: execute_snipe_trade_max)
qed

lemma create_snipe_order_spent:
  "create_snipe_order uid config inserted_id = Inr s \<Longrightarrow> sn_total_spent s \<le> sn_max_amount s"
  by (auto simp: create_snipe_order_def split: option.splits if_splits)

text \<open>
  C2. A snipe order as \<^verbatim>\<open>create_snipe_order\<close> stores it has spent no more than its cap,
  and any sequence of \<^verbatim>\<open>execute_snipe_trade\<close> calls on an order that has spent no more than
  its cap leaves the cap unchanged and the total spent at most the cap, whatever the
  venue answers at each call.
\<close>

theorem snipe_total_spent_never_exceeds_max_amount:
  "(create_snipe_order uid config inserted_id = Inr s \<longrightarrow> sn_total_spent s \<le> sn_max_amount s)
   \<and> (sn_total_spent s \<le> sn_max_amount s \<longrightarrow>
        sn_max_amount (execute_snipe_trades cfg calls s) = sn_max_amount s
        \<and> sn_total_spent (execute_snipe_trades cfg calls s) \<le> sn_max_amount s)"
  using create_snipe_order_spent execute_snipe_trades_spent execute_snipe_trades_max by blast

text \<open>
  An order with cap 1.0: six calls that all succeed spend 0.2 five times and then nothing.
\<close>

theorem snipe_total_spent_never_exceeds_max_amount_witness:
  "create_snipe_order 7 one_sol_config (Some ''65b2'') = Inr one_sol_snipe
   \<and> sn_total_spent one_sol_snipe \<le> sn_max_amount one_sol_snipe
   \<and> sn_total_spent
       (execute_snipe_trades engine_with_payment (replicate 6 (''TOK'', None, True)) one_sol_snipe)
     \<le> 1"
  using snipe_total_spent_never_exceeds_max_amount
          [of 7 one_sol_config "Some ''65b2''" one_sol_snipe engine_with_payment
              "replicate 6 (''TOK'', None, True)"]
  by (simp add: create_snipe_order_def one_sol_config_def one_sol_snipe_def)

subsection \<open>C10: subscribing never reports success\<close>

lemma no_analyzer: "\<not> has_attribute ''analyzer''"
  by (simp add: has_attribute_def TradingEngine_init_attributes_def TradingEngine_methods_def)

text \<open>
  C10. \<^verbatim>\<open>subscribe_copy_trading\<close> returns a failure for every input. When the address
  validates and the insert succeeds, the subscription document is in the store, active,
  and the call still returns the failure raised by reading the absent attribute
  \<^verbatim>\<open>analyzer\<close>.
\<close>

theorem subscribe_copy_trading_never_succeeds:
  "fst (snd (subscribe_copy_trading validate_address insert_ok subs uid wallet custom)) = False
   \<and> (validate_address wallet \<and> insert_ok \<longrightarrow>
        (\<exists>doc. fst (subscribe_copy_trading validate_address insert_ok subs uid wallet custom)
                 = subs @ [doc]
               \<and> sub_user_id doc = uid \<and> sub_wallet_address doc = wallet \<and> sub_is_active doc)
        \<and> snd (subscribe_copy_trading validate_address insert_ok subs uid wallet custom)
          = (False, Error_no_attribute ''TradingEngine'' ''analyzer''))"
  by (simp add: subscribe_copy_trading_def store_copy_trading_subscription_def Let_def no_analyzer)

theorem subscribe_copy_trading_never_succeeds_witness:
  "subscribe_copy_trading (\<lambda>a. True) True [] 7 ''W'' None
   = ([\<lparr>sub_user_id = 7, sub_wallet_address = ''W'',
        sub_copy_settings = Some default_copy_settings, sub_is_active = True\<rparr>],
      False, Error_no_attribute ''TradingEngine'' ''analyzer'')"
  using subscribe_copy_trading_never_succeeds [of "\<lambda>a. True" True "[]" 7 "''W''" None]
  by (simp add: subscribe_copy_trading_def store_copy_trading_subscription_def Let_def
        merge_copy_settings_def default_copy_settings_def no_settings_def override_def
        no_analyzer)

subsection \<open>C4: cancelling an order\<close>

lemma find_one_None_iff: "(find_one P xs = None) = (\<forall>x\<in>set xs. \<not> P x)"
  by (induction xs) auto

text \<open>
  The lookup of \<^verbatim>\<open>cancel_user_order\<close> compares the \<^verbatim>\<open>_id\<close> with a string. On a collection
  whose documents are all stored under object ids, as \<^verbatim>\<open>store_trade\<close> writes them, it
  finds nothing, whatever the status of the order.
\<close>

lemma cancel_user_order_object_ids:
  assumes "\<forall>t\<in>set trades. is_ObjectId (trade_id t)"
  shows "cancel_user_order uid oid trades active_orders
         = ((trades, active_orders), False, Order_not_found)"
proof -
  have "\<forall>t\<in>set trades. \<not> (trade_id t = Str_id oid \<and> tr_user_id t = uid)"
    using assms by auto
  then have "find_one (\<lambda>t. trade_id t = Str_id oid \<and> tr_user_id t = uid) trades = None"
    by (simp only: find_one_None_iff)
  then show ?thesis by (simp add: cancel_user_order_def)
qed

text \<open>
  C4 on the code. A pending order of user 7, stored under the object id \<open>65c3\<close> as
  \<^verbatim>\<open>store_trade\<close> writes it: cancelling it under its id answers \<open>Order not found\<close> and
  leaves it pending. An executing order stored under the string id \<open>order-1\<close>: cancelling
  it reports success, and its status is untouched, because the status update filters on
  the object id made from the string.
\<close>

theorem cancel_user_order_never_cancels:
  "cancel_user_order 7 ''65c3'' [stored_order PENDING] Map.empty
     = (([stored_order PENDING], Map.empty), False, Order_not_found)
   \<and> cancel_user_order 7 ''order-1'' [order_in_status EXECUTING] Map.empty
     = (([order_in_status EXECUTING], Map.empty), True, Order_cancelled_successfully)"
  by (simp add: cancel_user_order_def stored_order_def order_in_status_def
        update_trade_status_def)

subsection \<open>C5: limit orders and their expiry\<close>

text \<open>
  C5 on the code, at an order whose expiry has passed: a pending limit buy with trigger
  price 10 and expiry timestamp 100 is checked by a pass at time 200 that observes the
  price 9.5. The pass invokes the swap for it; the order ends completed, or failed in
  the engine built without its payment collaborator.
\<close>

theorem limit_order_executes_after_expiry:
  "ord_expires_at (limit_buy_at_10 (Str_id ''order-1'')) = Some 100
   \<and> lob_now (seen_price 9.5 200) = 200
   \<and> monitor_limit_orders_tick engine_with_payment (seen_price 9.5 200)
       (one_limit_order (Str_id ''order-1''))
     = \<lparr>lo_orders = [(limit_buy_at_10 (Str_id ''order-1''))\<lparr>ord_status := COMPLETED\<rparr>],
        lo_calls = [(''order-1'', Market_buy 7 ''TOK'' 1)],
        lo_swaps = [''order-1'']\<rparr>
   \<and> monitor_limit_orders_tick engine_of_main (seen_price 9.5 200)
       (one_limit_order (Str_id ''order-1''))
     = \<lparr>lo_orders = [(limit_buy_at_10 (Str_id ''order-1''))\<lparr>ord_status := FAILED\<rparr>],
        lo_calls = [(''order-1'', Market_buy 7 ''TOK'' 1)],
        lo_swaps = [''order-1'']\<rparr>"
  by (simp add: monitor_limit_orders_tick_def get_all_pending_orders_def one_limit_order_def
        limit_buy_at_10_def seen_price_def check_limit_order_def record_limit_result_def
        execute_market_buy_def engine_with_payment_def engine_of_main_def
        update_order_status_def Let_def)

subsection \<open>C1: how often the swap is invoked for a limit order\<close>

text \<open>
  The intake path has no gate either: every call of \<^verbatim>\<open>_execute_market_order\<close> invokes the
  swap, whatever the status of the order is.
\<close>

lemma execute_market_order_always_swaps:
  "ms_swaps (execute_market_order swap_ok has_price_impact oid order st) = ms_swaps st @ [oid]"
  by (simp add: execute_market_order_def Let_def)

lemma check_limit_order_cases:
  "check_limit_order cfg ob oid d s = s
   \<or> (\<exists>call result. check_limit_order cfg ob oid d s = record_limit_result oid call result s)"
proof -
  define Q where "Q y = (y = s \<or> (\<exists>call result. y = record_limit_result oid call result s))" for y
  have unchanged: "Q s" by (simp add: Q_def)
  have recorded: "Q (record_limit_result oid call result s)" for call result
    unfolding Q_def by blast
  have "Q (check_limit_order cfg ob oid d s)"
    unfolding check_limit_order_def Let_def
    by (simp add: unchanged recorded split: option.splits)
  then show ?thesis by (simp add: Q_def)
qed

lemma swaps_of_record_limit_result:
  "swaps_of x (record_limit_result oid call result s)
   = swaps_of x s + (if x = oid \<and> snd result then 1 else 0)"
  by (simp add: swaps_of_def record_limit_result_def)

lemma swaps_of_check_limit_order:
  "swaps_of x (check_limit_order cfg ob oid d s) \<le> swaps_of x s + (if x = oid then 1 else 0)"
  using check_limit_order_cases [of cfg ob oid d s]
  by (auto simp: swaps_of_record_limit_result)

lemma swaps_of_scan:
  "swaps_of x (foldl (\<lambda>s d. check_limit_order cfg ob (str_id (order_id d)) d s) s ds)
   \<le> swaps_of x s + length (filter (\<lambda>d. str_id (order_id d) = x) ds)"
proof (induction ds arbitrary: s)
  case Nil
  then show ?case by simp
next
  case (Cons d ds)
  let ?s1 = "check_limit_order cfg ob (str_id (order_id d)) d s"
  have "swaps_of x (foldl (\<lambda>s d. check_limit_order cfg ob (str_id (order_id d)) d s) ?s1 ds)
        \<le> swaps_of x ?s1 + length (filter (\<lambda>d. str_id (order_id d) = x) ds)"
    by (rule Cons.IH)
  moreover have "swaps_of x ?s1 \<le> swaps_of x s + (if x = str_id (order_id d) then 1 else 0)"
    by (rule swaps_of_check_limit_order)
  ultimately show ?case by auto
qed

lemma distinct_map_sort_key:
  "distinct (map f ds) \<Longrightarrow> distinct (map f (sort_key k ds))"
  by (simp add: distinct_map)

lemma distinct_map_pending:
  assumes "distinct (map f orders)"
  shows "distinct (map f (get_all_pending_orders orders))"
proof -
  have "distinct (map f (filter (\<lambda>d. ord_status d = PENDING) orders))"
    using assms by (rule distinct_map_filter)
  then have "distinct (map f (sort_key (\<lambda>d. - ord_created_at d)
                                (filter (\<lambda>d. ord_status d = PENDING) orders)))"
    by (rule distinct_map_sort_key)
  then have "distinct (take 100 (map f (sort_key (\<lambda>d. - ord_created_at d)
                                          (filter (\<lambda>d. ord_status d = PENDING) orders))))"
    by (rule distinct_take)
  then show ?thesis by (simp add: get_all_pending_orders_def take_map)
qed

lemma pending_answer_member:
  "d \<in> set (get_all_pending_orders orders) \<Longrightarrow> d \<in> set orders \<and> ord_status d = PENDING"
  by (auto simp: get_all_pending_orders_def dest!: in_set_takeD)

lemma swaps_of_tick:
  assumes "distinct (map (\<lambda>d. str_id (order_id d)) (lo_orders st))"
  shows "swaps_of oid (monitor_limit_orders_tick cfg ob st) \<le> swaps_of oid st + 1"
proof -
  have "distinct (map (\<lambda>d. str_id (order_id d)) (get_all_pending_orders (lo_orders st)))"
    using assms by (rule distinct_map_pending)
  then have "length (filter (\<lambda>d. str_id (order_id d) = oid) (get_all_pending_orders (lo_orders st)))
             \<le> Suc 0"
    by (rule at_most_one_with_key)
  moreover have "swaps_of oid (monitor_limit_orders_tick cfg ob st)
        \<le> swaps_of oid st
           + length (filter (\<lambda>d. str_id (order_id d) = oid) (get_all_pending_orders (lo_orders st)))"
    unfolding monitor_limit_orders_tick_def by (rule swaps_of_scan)
  ultimately show ?thesis by simp
qed

lemma order_ids_update_status:
  "map order_id (update_order_status oid status orders) = map order_id orders"
  unfolding update_order_status_def by (induction orders) auto

lemma settled_update_same:
  "distinct (map order_id orders) \<Longrightarrow> status \<noteq> PENDING
   \<Longrightarrow> settled oid (update_order_status oid status orders)"
  unfolding update_order_status_def settled_def
  by (induction orders) (auto simp: image_iff)

lemma settled_update_mono:
  "settled x orders \<Longrightarrow> status \<noteq> PENDING \<Longrightarrow> settled x (update_order_status oid status orders)"
  unfolding update_order_status_def settled_def
  by (induction orders) auto

lemma Str_id_str_id: "\<not> is_ObjectId i \<Longrightarrow> Str_id (str_id i) = i"
  by (cases i) simp_all

lemma check_limit_order_step:
  assumes inv: "limit_inv s" and fresh: "swaps_of oid s = 0"
  shows "limit_inv (check_limit_order cfg ob oid d s)
         \<and> (x \<noteq> oid \<longrightarrow> swaps_of x (check_limit_order cfg ob oid d s) = swaps_of x s)"
proof -
  let ?s' = "check_limit_order cfg ob oid d s"
  consider (same) "?s' = s"
    | (recorded) call result where "?s' = record_limit_result oid call result s"
    using check_limit_order_cases by blast
  then show ?thesis
  proof cases
    case same
    with inv show ?thesis by simp
  next
    case recorded
    define status where "status = (if fst result then COMPLETED else FAILED)"
    have st: "status \<noteq> PENDING" by (simp add: status_def)
    have orders: "lo_orders ?s' = update_order_status oid status (lo_orders s)"
      using recorded by (simp add: record_limit_result_def status_def)
    have sw: "swaps_of y ?s' = swaps_of y s + (if y = oid \<and> snd result then 1 else 0)" for y
      using recorded by (simp add: swaps_of_record_limit_result)
    have d: "distinct (map order_id (lo_orders s))"
      using inv by (simp add: limit_inv_def)
    have ids: "map order_id (lo_orders ?s') = map order_id (lo_orders s)"
      using orders by (simp add: order_ids_update_status)
    have strs: "\<forall>u\<in>set (lo_orders ?s'). \<not> is_ObjectId (order_id u)"
    proof
      fix u assume "u \<in> set (lo_orders ?s')"
      then have "order_id u \<in> set (map order_id (lo_orders ?s'))" by simp
      then have "order_id u \<in> set (map order_id (lo_orders s))" using ids by simp
      then show "\<not> is_ObjectId (order_id u)" using inv by (auto simp: limit_inv_def)
    qed
    have "swaps_of y ?s' \<le> 1 \<and> (1 \<le> swaps_of y ?s' \<longrightarrow> settled y (lo_orders ?s'))" for y
    proof (cases "y = oid")
      case True
      then show ?thesis
        using sw [of y] fresh orders settled_update_same [OF d st] by simp
    next
      case False
      then show ?thesis
        using sw [of y] orders inv st by (simp add: limit_inv_def settled_update_mono)
    qed
    then show ?thesis
      using ids d strs sw by (simp add: limit_inv_def)
  qed
qed

lemma str_id_inj: "\<not> is_ObjectId a \<Longrightarrow> \<not> is_ObjectId b \<Longrightarrow> str_id a = str_id b \<Longrightarrow> a = b"
  by (cases a; cases b) simp_all

lemma limit_scan_inv:
  "limit_inv s \<Longrightarrow> distinct (map order_id ds)
   \<Longrightarrow> (\<forall>d\<in>set ds. swaps_of (str_id (order_id d)) s = 0 \<and> \<not> is_ObjectId (order_id d))
   \<Longrightarrow> limit_inv (foldl (\<lambda>s d. check_limit_order cfg ob (str_id (order_id d)) d s) s ds)"
proof (induction ds arbitrary: s)
  case Nil
  then show ?case by simp
next
  case (Cons d ds)
  have fresh: "swaps_of (str_id (order_id d)) s = 0" and str: "\<not> is_ObjectId (order_id d)"
    using Cons.prems(3) by simp_all
  note step = check_limit_order_step [OF Cons.prems(1) fresh]
  let ?s1 = "check_limit_order cfg ob (str_id (order_id d)) d s"
  have inv': "limit_inv ?s1"
    using step [where cfg = cfg and ob = ob and d = d] by simp
  have "\<forall>u\<in>set ds. swaps_of (str_id (order_id u)) ?s1 = 0 \<and> \<not> is_ObjectId (order_id u)"
  proof
    fix u assume u: "u \<in> set ds"
    then have "order_id u \<noteq> order_id d" using Cons.prems(2) by (auto simp: image_iff)
    moreover have su: "\<not> is_ObjectId (order_id u)" using Cons.prems(3) u by simp
    ultimately have "str_id (order_id u) \<noteq> str_id (order_id d)"
      using str str_id_inj by blast
    then show "swaps_of (str_id (order_id u)) ?s1 = 0 \<and> \<not> is_ObjectId (order_id u)"
      using step [where cfg = cfg and ob = ob and d = d and x = "str_id (order_id u)"]
            Cons.prems(3) u by simp
  qed
  moreover have "distinct (map order_id ds)" using Cons.prems(2) by simp
  ultimately show ?case using Cons.IH [OF inv'] by simp
qed

lemma limit_tick_inv:
  assumes "limit_inv s"
  shows "limit_inv (monitor_limit_orders_tick cfg ob s)"
  unfolding monitor_limit_orders_tick_def
proof (rule limit_scan_inv [OF assms])
  show "distinct (map order_id (get_all_pending_orders (lo_orders s)))"
    using assms by (simp add: limit_inv_def distinct_map_pending)
  show "\<forall>d\<in>set (get_all_pending_orders (lo_orders s)).
          swaps_of (str_id (order_id d)) s = 0 \<and> \<not> is_ObjectId (order_id d)"
  proof
    fix d assume "d \<in> set (get_all_pending_orders (lo_orders s))"
    then have d: "d \<in> set (lo_orders s)" and p: "ord_status d = PENDING"
      using pending_answer_member by blast+
    have str: "\<not> is_ObjectId (order_id d)"
      using assms d by (simp add: limit_inv_def)
    then have "order_id d = Str_id (str_id (order_id d))" by (simp add: Str_id_str_id)
    with d p have "\<not> settled (str_id (order_id d)) (lo_orders s)"
      by (auto simp: settled_def)
    then have "\<not> 1 \<le> swaps_of (str_id (order_id d)) s"
      using assms by (auto simp: limit_inv_def)
    then show "swaps_of (str_id (order_id d)) s = 0 \<and> \<not> is_ObjectId (order_id d)"
      using str by simp
  qed
qed

lemma limit_run_inv:
  "limit_inv s \<Longrightarrow> limit_inv (monitor_limit_orders cfg obs s)"
  by (induction obs arbitrary: s) (simp_all add: limit_tick_inv)

text \<open>
  C1, as the code has it. There is no claim of an order before its execution: the check
  of a limit order neither reads nor claims the order's status before it invokes the
  swap. What holds is this. One pass of the limit-order monitor checks each order of
  its answer once, so (order ids being distinct) a pass invokes the swap at most once
  per order id. Over passes run one after the other, starting with no swap invoked, the
  swap is invoked at most once per order id when the status update that follows the
  swap reaches the order's document, which is the case for orders stored under a string
  id: the order is then completed or failed, and later passes query pending orders only.
\<close>

theorem limit_order_swapped_at_most_once_per_pass:
  "(distinct (map (\<lambda>d. str_id (order_id d)) (lo_orders st))
      \<longrightarrow> swaps_of oid (monitor_limit_orders_tick cfg ob st) \<le> swaps_of oid st + 1)
   \<and> (distinct (map order_id (lo_orders st))
        \<and> (\<forall>d\<in>set (lo_orders st). \<not> is_ObjectId (order_id d)) \<and> lo_swaps st = []
      \<longrightarrow> swaps_of oid (monitor_limit_orders cfg obs st) \<le> 1)"
proof (intro conjI impI)
  assume "distinct (map (\<lambda>d. str_id (order_id d)) (lo_orders st))"
  then show "swaps_of oid (monitor_limit_orders_tick cfg ob st) \<le> swaps_of oid st + 1"
    by (rule swaps_of_tick)
next
  assume "distinct (map order_id (lo_orders st))
        \<and> (\<forall>d\<in>set (lo_orders st). \<not> is_ObjectId (order_id d)) \<and> lo_swaps st = []"
  then have "limit_inv st" by (simp add: limit_inv_def swaps_of_def)
  then have "limit_inv (monitor_limit_orders cfg obs st)" by (rule limit_run_inv)
  then show "swaps_of oid (monitor_limit_orders cfg obs st) \<le> 1"
    by (simp add: limit_inv_def)
qed

text \<open>
  One pending limit buy, stored under a string id: the first pass that observes a price
  at or below the trigger invokes the swap, the two later passes do not.
\<close>

theorem limit_order_swapped_at_most_once_per_pass_witness:
  "swaps_of ''order-1''
     (monitor_limit_orders_tick engine_with_payment (seen_price 9.5 60)
        (one_limit_order (Str_id ''order-1''))) \<le> 1
   \<and> swaps_of ''order-1''
       (monitor_limit_orders engine_with_payment
          [seen_price 12 60, seen_price 9.5 70, seen_price 9 80]
          (one_limit_order (Str_id ''order-1''))) \<le> 1"
  using limit_order_swapped_at_most_once_per_pass
          [of "one_limit_order (Str_id ''order-1'')" "''order-1''" engine_with_payment
              "seen_price 9.5 60" "[seen_price 12 60, seen_price 9.5 70, seen_price 9 80]"]
  by (simp add: one_limit_order_def limit_buy_at_10_def swaps_of_def)

text \<open>
  C1 as stated fails: two monitor tasks whose queries are both answered while the order
  is pending each invoke the swap for it.
\<close>

theorem limit_order_swapped_twice_counterexample:
  "swaps_of ''order-1''
     (lt_engine
        (limit_tasks_run engine_with_payment (seen_price 9.5 60)
           [Query 0, Query 1, Check_next 0, Check_next 1]
           \<lparr>lt_engine = one_limit_order (Str_id ''order-1''), lt_answer = (\<lambda>k. [])\<rparr>)) = 2"
  by (simp add: swaps_of_def get_all_pending_orders_def one_limit_order_def
        limit_buy_at_10_def seen_price_def check_limit_order_def record_limit_result_def
        execute_market_buy_def engine_with_payment_def update_order_status_def Let_def)

end
